theory Spec2Isabelle
  imports Main "HOL-Library.Word"
begin

unbundle bit_operations_syntax

section \<open>pybuzzers: the BuzzerSet session of \<^verbatim>\<open>pybuzzers/BuzzerSet.py\<close>\<close>

text \<open>
  A shallow embedding of the class \<^verbatim>\<open>BuzzerSet\<close>. Python integers are \<open>int\<close>, a report
  read from the device is an \<open>int list\<close>, the button state is a list of rows of booleans.
  An exception is a value of the type \<open>error\<close>. The HID transport (the package \<^verbatim>\<open>hid\<close>)
  is not part of the repository: the answer of the transport to a call is an argument of
  the operation that makes the call, and the calls an operation issues are returned with
  its result. The handlers are not part of it either: what a handler does when the read
  loop calls it is an argument of the state update too.
\<close>

subsection \<open>Data\<close>

datatype error = IndexError | RuntimeError | TransportError string | HandlerError string

datatype 'a outcome = Returned 'a | Raised error

type_synonym grid = "bool list list"

type_synonym path = "int list"

text \<open>
  A Python \<^verbatim>\<open>dict\<close> keeps its keys in insertion order, and \<^verbatim>\<open>values()\<close> walks them in
  that order: an association list. \<^verbatim>\<open>d[k] = v\<close> replaces the value of a key that is
  there, in place, and appends a new key.
\<close>

type_synonym ('k, 'v) dict = "('k \<times> 'v) list"

fun dict_setitem :: "('k, 'v) dict \<Rightarrow> 'k \<Rightarrow> 'v \<Rightarrow> ('k, 'v) dict" where
  "dict_setitem [] k v = [(k, v)]"
| "dict_setitem ((k', v') # d) k v =
     (if k' = k then (k, v) # d else (k', v') # dict_setitem d k v)"

definition dict_keys :: "('k, 'v) dict \<Rightarrow> 'k list" where
  "dict_keys d = map fst d"

definition dict_values :: "('k, 'v) dict \<Rightarrow> 'v list" where
  "dict_values d = map snd d"

definition dict_get :: "('k, 'v) dict \<Rightarrow> 'k \<Rightarrow> 'v option" where
  "dict_get d k = map_of d k"

text \<open>\<^verbatim>\<open>d.pop(k, None)\<close>, for the dictionary it leaves.\<close>

definition dict_pop :: "('k, 'v) dict \<Rightarrow> 'k \<Rightarrow> ('k, 'v) dict" where
  "dict_pop d k = filter (\<lambda>(k', v). k' \<noteq> k) d"

text \<open>
  A call of a registered handler, as the read loop makes it: the handler and the
  arguments that follow \<^verbatim>\<open>self\<close>. Handlers are values of a type \<open>'h\<close>; a state update
  returns the calls it makes, in order.
\<close>

datatype 'h call =
    Change 'h grid
  | ButtonDown 'h nat nat
  | Buzz 'h nat
  | ButtonUp 'h nat nat

text \<open>A call the session makes on the HID transport.\<close>

datatype io = OpenPath path | Write "int list"

text \<open>
  The attributes of an initialised \<^verbatim>\<open>BuzzerSet\<close>. The private attributes \<^verbatim>\<open>__x\<close> are the
  fields \<open>priv_x\<close>. \<open>priv_interface\<close> is the \<^verbatim>\<open>hid.device\<close> the session owns: \<open>None\<close>
  until \<^verbatim>\<open>open_path\<close> has returned, then the path it is open at.
\<close>

record 'h BuzzerSet =
  path :: path
  label :: "string option"
  priv_lights :: "bool list"
  priv_state :: grid
  priv_on_change :: "(string, 'h) dict"
  priv_on_buzz :: "(string, 'h) dict"
  priv_on_button_down :: "(string, 'h) dict"
  priv_on_button_up :: "(string, 'h) dict"
  priv_interface :: "path option"

subsection \<open>The state decoder: \<^verbatim>\<open>BuzzerSet.__decode_state\<close>\<close>

text \<open>
  \<^verbatim>\<open>data[2:5]\<close>: a slice never raises, it is shorter when the list is.
\<close>

definition slice_2_5 :: "'a list \<Rightarrow> 'a list" where
  "slice_2_5 data = take 3 (drop 2 data)"

text \<open>
  \<^verbatim>\<open>[bool(num & 2 ** i) for num in data[2:5] for i in range(8)]\<close>
\<close>

definition to_bools :: "int list \<Rightarrow> bool list" where
  "to_bools data =
     concat (map (\<lambda>num. map (\<lambda>i. (num AND 2 ^ i) \<noteq> 0) [0..<8]) (slice_2_5 data))"

text \<open>
  \<^verbatim>\<open>data[k]\<close> for a constant index \<open>k \<ge> 0\<close>: \<open>None\<close> stands for the \<^verbatim>\<open>IndexError\<close>
  Python raises out of range.
\<close>

definition getitem :: "'a list \<Rightarrow> nat \<Rightarrow> 'a option" where
  "getitem xs k = (if k < length xs then Some (xs ! k) else None)"

text \<open>
  One row of the result, \<^verbatim>\<open>[data[i0], data[i1], ...]\<close>: the elements are read from left
  to right and the first failing read raises.
\<close>

fun row :: "'a list \<Rightarrow> nat list \<Rightarrow> 'a list option" where
  "row xs [] = Some []"
| "row xs (k # ks) =
     (case getitem xs k of
        None \<Rightarrow> None
      | Some x \<Rightarrow> (case row xs ks of None \<Rightarrow> None | Some r \<Rightarrow> Some (x # r)))"

definition decode_state :: "int list \<Rightarrow> error + grid" where
  "decode_state data =
     (let bits = to_bools data in
      case (row bits [0, 4, 3, 2, 1], row bits [5, 9, 8, 7, 6],
            row bits [10, 14, 13, 12, 11], row bits [15, 19, 18, 17, 16]) of
        (Some r0, Some r1, Some r2, Some r3) \<Rightarrow> Inr [r0, r1, r2, r3]
      | _ \<Rightarrow> Inl IndexError)"

text \<open>
  The reading of the specification, to compare the decoder with: the bytes at offsets 2,
  3 and 4 each give their 8 low bits, least significant first, to a 24-bit field; row \<open>c\<close>
  of the grid is the cluster of bits \<open>5c .. 5c+4\<close> of the field in the button order
  \<open>[bit 0, bit 4, bit 3, bit 2, bit 1]\<close>.
\<close>

definition spec_field24 :: "int list \<Rightarrow> int" where
  "spec_field24 report =
     take_bit 8 (report ! 2) OR push_bit 8 (take_bit 8 (report ! 3))
       OR push_bit 16 (take_bit 8 (report ! 4))"

definition spec_button_order :: "nat list" where
  "spec_button_order = [0, 4, 3, 2, 1]"

definition spec_grid :: "int \<Rightarrow> grid" where
  "spec_grid field = map (\<lambda>c. map (\<lambda>j. bit field (5 * c + j)) spec_button_order) [0..<4]"

subsection \<open>State methods\<close>

definition get_buttons_state :: "'h BuzzerSet \<Rightarrow> grid" where
  "get_buttons_state self = priv_state self"

definition get_lights_state :: "'h BuzzerSet \<Rightarrow> bool list" where
  "get_lights_state self = priv_lights self"

subsection \<open>Handler registration\<close>

text \<open>
  \<^verbatim>\<open>label or str(handler)\<close>: \<^verbatim>\<open>None\<close> and the empty string are both falsy, every other
  string is truthy. The second argument is the value of \<^verbatim>\<open>str(handler)\<close>.
\<close>

definition label_or :: "string option \<Rightarrow> string \<Rightarrow> string" where
  "label_or label_arg dflt =
     (case label_arg of None \<Rightarrow> dflt | Some l \<Rightarrow> if l = [] then dflt else l)"

text \<open>
  The four registration methods. \<open>str_of\<close> is Python's \<^verbatim>\<open>str\<close> on the callables. Each
  returns the label and the session it leaves.
\<close>

definition on_change ::
  "('h \<Rightarrow> string) \<Rightarrow> 'h BuzzerSet \<Rightarrow> 'h \<Rightarrow> string option \<Rightarrow> string \<times> 'h BuzzerSet" where
  "on_change str_of self handler label_arg =
     (let l = label_or label_arg (str_of handler) in
      (l, self\<lparr>priv_on_change := dict_setitem (priv_on_change self) l handler\<rparr>))"

definition on_buzz ::
  "('h \<Rightarrow> string) \<Rightarrow> 'h BuzzerSet \<Rightarrow> 'h \<Rightarrow> string option \<Rightarrow> string \<times> 'h BuzzerSet" where
  "on_buzz str_of self handler label_arg =
     (let l = label_or label_arg (str_of handler) in
      (l, self\<lparr>priv_on_buzz := dict_setitem (priv_on_buzz self) l handler\<rparr>))"

definition on_button_down ::
  "('h \<Rightarrow> string) \<Rightarrow> 'h BuzzerSet \<Rightarrow> 'h \<Rightarrow> string option \<Rightarrow> string \<times> 'h BuzzerSet" where
  "on_button_down str_of self handler label_arg =
     (let l = label_or label_arg (str_of handler) in
      (l, self\<lparr>priv_on_button_down := dict_setitem (priv_on_button_down self) l handler\<rparr>))"

definition on_button_up ::
  "('h \<Rightarrow> string) \<Rightarrow> 'h BuzzerSet \<Rightarrow> 'h \<Rightarrow> string option \<Rightarrow> string \<times> 'h BuzzerSet" where
  "on_button_up str_of self handler label_arg =
     (let l = label_or label_arg (str_of handler) in
      (l, self\<lparr>priv_on_button_up := dict_setitem (priv_on_button_up self) l handler\<rparr>))"

definition remove_handler :: "'h BuzzerSet \<Rightarrow> string \<Rightarrow> 'h BuzzerSet" where
  "remove_handler self l =
     self\<lparr>priv_on_change := dict_pop (priv_on_change self) l,
          priv_on_buzz := dict_pop (priv_on_buzz self) l,
          priv_on_button_down := dict_pop (priv_on_button_down self) l,
          priv_on_button_up := dict_pop (priv_on_button_up self) l\<rparr>"

definition clear_handlers :: "'h BuzzerSet \<Rightarrow> 'h BuzzerSet" where
  "clear_handlers self =
     self\<lparr>priv_on_change := [], priv_on_buzz := [],
          priv_on_button_up := [], priv_on_button_down := []\<rparr>"

subsection \<open>One state update: \<^verbatim>\<open>BuzzerSet.__handle_event\<close>\<close>

text \<open>\<^verbatim>\<open>for buzzer in range(4) for button in range(5)\<close>\<close>

definition cells :: "(nat \<times> nat) list" where
  "cells = concat (map (\<lambda>buzzer. map (\<lambda>button. (buzzer, button)) [0..<5]) [0..<4])"

text \<open>\<^verbatim>\<open>g[buzzer][button]\<close>, \<open>None\<close> for the \<^verbatim>\<open>IndexError\<close> of a grid that is too small.\<close>

definition cell :: "grid \<Rightarrow> nat \<Rightarrow> nat \<Rightarrow> bool option" where
  "cell g buzzer button =
     (case getitem g buzzer of None \<Rightarrow> None | Some r \<Rightarrow> getitem r button)"

text \<open>
  The two conditions of the comprehensions. \<^verbatim>\<open>and\<close> reads its right operand only when
  the left one is true.
\<close>

definition down_cond :: "grid \<Rightarrow> grid \<Rightarrow> nat \<times> nat \<Rightarrow> bool option" where
  "down_cond new_state old_state c =
     (case cell new_state (fst c) (snd c) of
        None \<Rightarrow> None
      | Some n \<Rightarrow>
          if n then map_option (\<lambda>ol. \<not> ol) (cell old_state (fst c) (snd c))
          else Some False)"

definition up_cond :: "grid \<Rightarrow> grid \<Rightarrow> nat \<times> nat \<Rightarrow> bool option" where
  "up_cond new_state old_state c =
     (case cell new_state (fst c) (snd c) of
        None \<Rightarrow> None
      | Some n \<Rightarrow>
          if \<not> n then cell old_state (fst c) (snd c)
          else Some False)"

text \<open>\<^verbatim>\<open>[x for x in xs if cond(x)]\<close> where the condition may raise.\<close>

fun comprehension :: "('a \<Rightarrow> bool option) \<Rightarrow> 'a list \<Rightarrow> 'a list option" where
  "comprehension cond [] = Some []"
| "comprehension cond (x # xs) =
     (case cond x of
        None \<Rightarrow> None
      | Some b \<Rightarrow>
          (case comprehension cond xs of
             None \<Rightarrow> None
           | Some ys \<Rightarrow> Some (if b then x # ys else ys)))"

text \<open>
  \<^verbatim>\<open>any(xs)\<close> on a list of pairs: a tuple of two elements is truthy whatever it holds,
  \<^verbatim>\<open>(0, 0)\<close> too.
\<close>

definition truthy_pair :: "nat \<times> nat \<Rightarrow> bool" where
  "truthy_pair t = True"

definition any_py :: "(nat \<times> nat) list \<Rightarrow> bool" where
  "any_py xs = list_ex truthy_pair xs"

text \<open>
  What a handler does when it is called. The handler runs inside the loop that calls
  it, with the session in hand: it may call the methods of the session that change a
  registry, and it returns or raises. \<open>StateReplaced g\<close> is for the stored grid put to \<open>g\<close>
  while the handler runs, by the private attribute or by a second reader. The reaction
  of a handler is the list of what it does to the session, in order, and the exception
  it raises at the end, if any. What else a handler does, to the lights or anywhere
  outside the session, does not reach the loops unless it raises.
\<close>

datatype 'h effect =
    CallOnChange 'h "string option"
  | CallOnBuzz 'h "string option"
  | CallOnButtonDown 'h "string option"
  | CallOnButtonUp 'h "string option"
  | CallRemoveHandler string
  | CallClearHandlers
  | StateReplaced grid

type_synonym 'h reaction = "'h effect list \<times> error option"

fun apply_effect :: "('h \<Rightarrow> string) \<Rightarrow> 'h BuzzerSet \<Rightarrow> 'h effect \<Rightarrow> 'h BuzzerSet" where
  "apply_effect str_of s (CallOnChange h l) = snd (on_change str_of s h l)"
| "apply_effect str_of s (CallOnBuzz h l) = snd (on_buzz str_of s h l)"
| "apply_effect str_of s (CallOnButtonDown h l) = snd (on_button_down str_of s h l)"
| "apply_effect str_of s (CallOnButtonUp h l) = snd (on_button_up str_of s h l)"
| "apply_effect str_of s (CallRemoveHandler l) = remove_handler s l"
| "apply_effect str_of s CallClearHandlers = clear_handlers s"
| "apply_effect str_of s (StateReplaced g) = s\<lparr>priv_state := g\<rparr>"

fun is_clear :: "'h effect \<Rightarrow> bool" where
  "is_clear CallClearHandlers = True"
| "is_clear other = False"

text \<open>The four registries, by the attribute that holds them.\<close>

datatype registry = RegChange | RegBuzz | RegButtonDown | RegButtonUp

fun registry_of :: "registry \<Rightarrow> 'h BuzzerSet \<Rightarrow> (string, 'h) dict" where
  "registry_of RegChange s = priv_on_change s"
| "registry_of RegBuzz s = priv_on_buzz s"
| "registry_of RegButtonDown s = priv_on_button_down s"
| "registry_of RegButtonUp s = priv_on_button_up s"

text \<open>
  \<^verbatim>\<open>for event in self.__on_x.values(): event(self, ...)\<close>. The loop walks the dict object
  the attribute holds when the loop starts. The registration methods and
  \<^verbatim>\<open>remove_handler\<close> change that object in place; \<^verbatim>\<open>clear_handlers\<close> puts new dicts in
  the attributes, and the loop keeps the old object, which nothing reaches any more. The
  state of a loop is the session, the dict of the loop (\<open>None\<close> while it is still the
  attribute of the session, the old object after a \<^verbatim>\<open>clear_handlers\<close>), and whether a
  key was added to the dict of the loop or deleted from it since the loop started.
\<close>

type_synonym 'h loop_state = "'h BuzzerSet \<times> (string, 'h) dict option \<times> bool"

definition loop_dict :: "registry \<Rightarrow> 'h loop_state \<Rightarrow> (string, 'h) dict" where
  "loop_dict r st =
     (case fst (snd st) of None \<Rightarrow> registry_of r (fst st) | Some d \<Rightarrow> d)"

definition react_step ::
  "('h \<Rightarrow> string) \<Rightarrow> registry \<Rightarrow> 'h effect \<Rightarrow> 'h loop_state \<Rightarrow> 'h loop_state" where
  "react_step str_of r e st =
     (let s' = apply_effect str_of (fst st) e;
          old' = (case fst (snd st) of
                    None \<Rightarrow> if is_clear e then Some (registry_of r (fst st)) else None
                  | Some d \<Rightarrow> Some d)
      in (s', old',
          snd (snd st) \<or> dict_keys (loop_dict r (s', old', False)) \<noteq> dict_keys (loop_dict r st)))"

text \<open>
  How a loop, and the state update, ends. Each time the loop asks the dict for the next
  value, Python raises \<^verbatim>\<open>RuntimeError\<close> when the dict has not the size it had when the
  loop started. When keys were added or deleted and the size is the same again, what
  the loop then does depends on the memory layout of the dict: \<open>Unspecified\<close>. With the
  keys untouched, the loop reads the value at its position from the dict as it is now.
\<close>

datatype ending = Completed | Failed error | Unspecified

definition next_check :: "nat \<Rightarrow> bool \<Rightarrow> (string, 'h) dict \<Rightarrow> ending" where
  "next_check size0 touched d =
     (if length d \<noteq> size0 then Failed RuntimeError
      else if touched then Unspecified
      else Completed)"

text \<open>
  The loop over the positions that are left. \<open>mk\<close> makes the call of a handler with
  the arguments of this loop; \<open>react\<close> gives the reaction of the handler to the call, on
  the session as it is then. An exception of a handler ends the loop, and the state
  update: nothing catches it.
\<close>

fun for_values ::
  "('h \<Rightarrow> string) \<Rightarrow> ('h BuzzerSet \<Rightarrow> 'h call \<Rightarrow> 'h reaction) \<Rightarrow> registry \<Rightarrow> ('h \<Rightarrow> 'h call)
     \<Rightarrow> nat \<Rightarrow> nat list \<Rightarrow> 'h loop_state \<Rightarrow> ending \<times> 'h BuzzerSet \<times> 'h call list" where
  "for_values str_of react r mk size0 [] st =
     (next_check size0 (snd (snd st)) (loop_dict r st), fst st, [])"
| "for_values str_of react r mk size0 (i # rest) st =
     (case next_check size0 (snd (snd st)) (loop_dict r st) of
        Completed \<Rightarrow>
          (let c = mk (snd (loop_dict r st ! i));
               st' = fold (react_step str_of r) (fst (react (fst st) c)) st
           in case snd (react (fst st) c) of
                Some e \<Rightarrow> (Failed e, fst st', [c])
              | None \<Rightarrow>
                  (case for_values str_of react r mk size0 rest st' of
                     (e, s, cs) \<Rightarrow> (e, s, c # cs)))
      | Failed e \<Rightarrow> (Failed e, fst st, [])
      | Unspecified \<Rightarrow> (Unspecified, fst st, []))"

definition for_loop ::
  "('h \<Rightarrow> string) \<Rightarrow> ('h BuzzerSet \<Rightarrow> 'h call \<Rightarrow> 'h reaction) \<Rightarrow> registry \<Rightarrow> ('h \<Rightarrow> 'h call)
     \<Rightarrow> 'h BuzzerSet \<Rightarrow> ending \<times> 'h BuzzerSet \<times> 'h call list" where
  "for_loop str_of react r mk s =
     for_values str_of react r mk (length (registry_of r s))
       [0..<length (registry_of r s)] (s, None, False)"

text \<open>One statement after another: the second runs when the first has completed.\<close>

definition and_then ::
  "ending \<times> 'h BuzzerSet \<times> 'h call list
     \<Rightarrow> ('h BuzzerSet \<Rightarrow> ending \<times> 'h BuzzerSet \<times> 'h call list)
     \<Rightarrow> ending \<times> 'h BuzzerSet \<times> 'h call list" where
  "and_then res f =
     (if fst res = Completed
      then (fst (f (fst (snd res))), fst (snd (f (fst (snd res)))),
            snd (snd res) @ snd (snd (f (fst (snd res)))))
      else res)"

text \<open>
  \<^verbatim>\<open>for (buzzer, button) in button_downs: ...\<close> and \<^verbatim>\<open>for (buzzer, button) in button_ups: ...\<close>:
  the lists are local to the state update, every inner loop reads its registry when it
  starts.
\<close>

fun down_loop ::
  "('h \<Rightarrow> string) \<Rightarrow> ('h BuzzerSet \<Rightarrow> 'h call \<Rightarrow> 'h reaction) \<Rightarrow> (nat \<times> nat) list
     \<Rightarrow> 'h BuzzerSet \<Rightarrow> ending \<times> 'h BuzzerSet \<times> 'h call list" where
  "down_loop str_of react [] s = (Completed, s, [])"
| "down_loop str_of react (c # rest) s =
     and_then
       (and_then
          (for_loop str_of react RegButtonDown (\<lambda>event. ButtonDown event (fst c) (snd c)) s)
          (\<lambda>s1. if snd c = 0
                then for_loop str_of react RegBuzz (\<lambda>event. Buzz event (fst c)) s1
                else (Completed, s1, [])))
       (down_loop str_of react rest)"

fun up_loop ::
  "('h \<Rightarrow> string) \<Rightarrow> ('h BuzzerSet \<Rightarrow> 'h call \<Rightarrow> 'h reaction) \<Rightarrow> (nat \<times> nat) list
     \<Rightarrow> 'h BuzzerSet \<Rightarrow> ending \<times> 'h BuzzerSet \<times> 'h call list" where
  "up_loop str_of react [] s = (Completed, s, [])"
| "up_loop str_of react (c # rest) s =
     and_then
       (for_loop str_of react RegButtonUp (\<lambda>event. ButtonUp event (fst c) (snd c)) s)
       (up_loop str_of react rest)"

text \<open>
  \<^verbatim>\<open>__handle_event\<close>. \<open>str_of\<close> is Python's \<^verbatim>\<open>str\<close> on the callables, for the registrations
  the handlers make.
\<close>

definition handle_event ::
  "('h \<Rightarrow> string) \<Rightarrow> ('h BuzzerSet \<Rightarrow> 'h call \<Rightarrow> 'h reaction) \<Rightarrow> 'h BuzzerSet \<Rightarrow> grid
     \<Rightarrow> ending \<times> 'h BuzzerSet \<times> 'h call list" where
  "handle_event str_of react self new_state =
     (let old_state = priv_state self;
          self1 = self\<lparr>priv_state := new_state\<rparr>
      in case comprehension (down_cond new_state old_state) cells of
           None \<Rightarrow> (Failed IndexError, self1, [])
         | Some button_downs \<Rightarrow>
             (case comprehension (up_cond new_state old_state) cells of
                None \<Rightarrow> (Failed IndexError, self1, [])
              | Some button_ups \<Rightarrow>
                  if \<not> any_py button_ups \<and> \<not> any_py button_downs
                  then (Completed, self1, [])
                  else and_then
                         (and_then
                            (for_loop str_of react RegChange
                               (\<lambda>event. Change event new_state) self1)
                            (down_loop str_of react button_downs))
                         (up_loop str_of react button_ups)))"

subsection \<open>Lights\<close>

text \<open>
  \<^verbatim>\<open>set_lights\<close> stores the list, then writes. \<open>wres\<close> is the answer of the transport to
  the write: \<open>None\<close> when it returns, \<open>Some e\<close> when it raises \<open>e\<close>.
\<close>

definition set_lights ::
  "'h BuzzerSet \<Rightarrow> bool list \<Rightarrow> error option \<Rightarrow> unit outcome \<times> 'h BuzzerSet \<times> io list" where
  "set_lights self lights wres =
     (let self1 = self\<lparr>priv_lights := lights\<rparr>;
          binLights = map (\<lambda>light. if light then 0xFF else 0x00) lights;
          command = [0x0, 0x0] @ binLights @ [0x0, 0x0]
      in (case wres of None \<Rightarrow> Returned () | Some e \<Rightarrow> Raised e, self1, [Write command]))"

text \<open>
  \<^verbatim>\<open>xs[i] = v\<close> with a Python index: a negative index counts from the end, \<open>None\<close> is the
  \<^verbatim>\<open>IndexError\<close>.
\<close>

definition setitem :: "'a list \<Rightarrow> int \<Rightarrow> 'a \<Rightarrow> 'a list option" where
  "setitem xs i v =
     (let n = int (length xs); j = (if i < 0 then n + i else i)
      in if 0 \<le> j \<and> j < n then Some (xs[nat j := v]) else None)"

definition set_light ::
  "'h BuzzerSet \<Rightarrow> int \<Rightarrow> bool \<Rightarrow> error option \<Rightarrow> unit outcome \<times> 'h BuzzerSet \<times> io list" where
  "set_light self buzzer light wres =
     (case setitem (priv_lights self) buzzer light of
        None \<Rightarrow> (Raised IndexError, self, [])
      | Some ls \<Rightarrow> set_lights (self\<lparr>priv_lights := ls\<rparr>) ls wres)"

definition set_lights_on ::
  "'h BuzzerSet \<Rightarrow> error option \<Rightarrow> unit outcome \<times> 'h BuzzerSet \<times> io list" where
  "set_lights_on self wres = set_lights self (replicate 4 True) wres"

definition set_lights_off ::
  "'h BuzzerSet \<Rightarrow> error option \<Rightarrow> unit outcome \<times> 'h BuzzerSet \<times> io list" where
  "set_lights_off self wres = set_lights self (replicate 4 False) wres"

subsection \<open>Construction: \<^verbatim>\<open>__new__\<close> and \<^verbatim>\<open>__init__\<close>\<close>

text \<open>
  An object of the class is \<open>Fresh\<close> as \<^verbatim>\<open>object.__new__\<close> leaves it (the class attribute
  \<^verbatim>\<open>__initialised\<close> is \<^verbatim>\<open>False\<close>), and \<open>Initialised\<close> once \<^verbatim>\<open>__init__\<close> has set
  \<^verbatim>\<open>__initialised\<close>; every other attribute is assigned before the first call that can
  raise. A reference is an index of the heap, and a new object takes the next index. The
  class attribute \<^verbatim>\<open>__existing_buzzer_sets\<close> maps a path to a reference.
\<close>

datatype 'h obj = Fresh | Initialised "'h BuzzerSet"

record 'h world =
  existing_buzzer_sets :: "(path, nat) dict"
  heap :: "'h obj list"

definition BuzzerSet_new :: "'h world \<Rightarrow> path \<Rightarrow> nat \<times> 'h world" where
  "BuzzerSet_new w p =
     (case dict_get (existing_buzzer_sets w) p of
        Some instance \<Rightarrow> (instance, w)
      | None \<Rightarrow>
          (let instance = length (heap w)
           in (instance,
               w\<lparr>heap := heap w @ [Fresh],
                 existing_buzzer_sets := dict_setitem (existing_buzzer_sets w) p instance\<rparr>)))"

text \<open>
  \<^verbatim>\<open>__init__\<close> on an object: \<open>ores\<close> and \<open>wres\<close> are the answers of the transport to
  \<^verbatim>\<open>open_path\<close> and to the write of \<^verbatim>\<open>set_lights_off\<close>.
\<close>

definition BuzzerSet_init ::
  "'h obj \<Rightarrow> path \<Rightarrow> string option \<Rightarrow> error option \<Rightarrow> error option
     \<Rightarrow> unit outcome \<times> 'h obj \<times> io list" where
  "BuzzerSet_init self p lbl ores wres =
     (case self of
        Initialised s \<Rightarrow> (Returned (), self, [])
      | Fresh \<Rightarrow>
          (let s0 = \<lparr>path = p, label = lbl,
                     priv_lights = replicate 4 False,
                     priv_state = replicate 4 (replicate 5 False),
                     priv_on_change = [], priv_on_buzz = [],
                     priv_on_button_down = [], priv_on_button_up = [],
                     priv_interface = None\<rparr>
           in case ores of
                Some e \<Rightarrow> (Raised e, Initialised s0, [OpenPath p])
              | None \<Rightarrow>
                  (case set_lights_off (s0\<lparr>priv_interface := Some p\<rparr>) wres of
                     (r, s1, ios) \<Rightarrow> (r, Initialised s1, OpenPath p # ios))))"

text \<open>
  The call \<^verbatim>\<open>BuzzerSet(path)\<close>: \<^verbatim>\<open>__new__\<close>, then \<^verbatim>\<open>__init__\<close> on the object it returned,
  with \<^verbatim>\<open>label\<close> at its default. The reference is returned when \<^verbatim>\<open>__init__\<close> returns.
\<close>

definition BuzzerSet_call ::
  "'h world \<Rightarrow> path \<Rightarrow> error option \<Rightarrow> error option \<Rightarrow> nat outcome \<times> 'h world \<times> io list" where
  "BuzzerSet_call w p ores wres =
     (case BuzzerSet_new w p of
        (instance, w1) \<Rightarrow>
          (case BuzzerSet_init (heap w1 ! instance) p None ores wres of
             (r, ob, ios) \<Rightarrow>
               (case r of Returned u \<Rightarrow> Returned instance | Raised e \<Rightarrow> Raised e,
                w1\<lparr>heap := (heap w1)[instance := ob]\<rparr>, ios)))"

text \<open>
  Before any construction the registry is empty. In every world the program reaches,
  the references of the registry are objects of the heap, and two paths never share one.
\<close>

definition world0 :: "'h world" where
  "world0 = \<lparr>existing_buzzer_sets = [], heap = []\<rparr>"

definition wf_world :: "'h world \<Rightarrow> bool" where
  "wf_world w \<longleftrightarrow>
     list_all (\<lambda>a. a < length (heap w)) (dict_values (existing_buzzer_sets w))
     \<and> distinct (dict_keys (existing_buzzer_sets w))
     \<and> distinct (dict_values (existing_buzzer_sets w))"

subsection \<open>The words of the specification\<close>

text \<open>
  A Button State is a grid of 4 rows of 5 cells. A cell goes down when it was false and
  is true, up when it was true and is false.
\<close>

definition wf_grid :: "grid \<Rightarrow> bool" where
  "wf_grid g \<longleftrightarrow> length g = 4 \<and> list_all (\<lambda>r. length r = 5) g"

definition spec_differs :: "grid \<Rightarrow> grid \<Rightarrow> bool" where
  "spec_differs old_g new_g = list_ex (\<lambda>(c, b). old_g ! c ! b \<noteq> new_g ! c ! b) cells"

definition spec_downs :: "grid \<Rightarrow> grid \<Rightarrow> (nat \<times> nat) list" where
  "spec_downs old_g new_g = filter (\<lambda>(c, b). \<not> old_g ! c ! b \<and> new_g ! c ! b) cells"

definition spec_ups :: "grid \<Rightarrow> grid \<Rightarrow> (nat \<times> nat) list" where
  "spec_ups old_g new_g = filter (\<lambda>(c, b). old_g ! c ! b \<and> \<not> new_g ! c ! b) cells"

fun is_Change :: "'h call \<Rightarrow> bool" where
  "is_Change (Change h g) = True"
| "is_Change other = False"

fun is_ButtonDown :: "'h call \<Rightarrow> bool" where
  "is_ButtonDown (ButtonDown h c b) = True"
| "is_ButtonDown other = False"

fun is_Buzz :: "'h call \<Rightarrow> bool" where
  "is_Buzz (Buzz h c) = True"
| "is_Buzz other = False"

fun is_ButtonUp :: "'h call \<Rightarrow> bool" where
  "is_ButtonUp (ButtonUp h c b) = True"
| "is_ButtonUp other = False"

text \<open>
  The calls the specification lists for a state update: every change handler with the
  new grid, then for each cell that went down every button-down handler and, for button
  0, every buzz handler, then for each cell that went up every button-up handler.
\<close>

definition fire_change :: "'h BuzzerSet \<Rightarrow> grid \<Rightarrow> 'h call list" where
  "fire_change self new_state =
     map (\<lambda>event. Change event new_state) (dict_values (priv_on_change self))"

definition fire_down :: "'h BuzzerSet \<Rightarrow> nat \<times> nat \<Rightarrow> 'h call list" where
  "fire_down self c =
     map (\<lambda>event. ButtonDown event (fst c) (snd c)) (dict_values (priv_on_button_down self))
     @ (if snd c = 0 then map (\<lambda>event. Buzz event (fst c)) (dict_values (priv_on_buzz self))
        else [])"

definition fire_up :: "'h BuzzerSet \<Rightarrow> nat \<times> nat \<Rightarrow> 'h call list" where
  "fire_up self c =
     map (\<lambda>event. ButtonUp event (fst c) (snd c)) (dict_values (priv_on_button_up self))"

definition spec_dispatch ::
  "'h BuzzerSet \<Rightarrow> grid \<Rightarrow> (nat \<times> nat) list \<Rightarrow> (nat \<times> nat) list \<Rightarrow> 'h call list" where
  "spec_dispatch self new_state button_downs button_ups =
     fire_change self new_state
     @ concat (map (fire_down self) button_downs)
     @ concat (map (fire_up self) button_ups)"

text \<open>
  A call fits the pair (stored grid, new grid) when a change call carries the new grid,
  a button-down call is for a cell that went down, a buzz call for a buzzer whose button
  0 went down, a button-up call for a cell that went up.
\<close>

fun spec_call_fits :: "grid \<Rightarrow> grid \<Rightarrow> 'h call \<Rightarrow> bool" where
  "spec_call_fits old_g new_g (Change h g) \<longleftrightarrow> g = new_g"
| "spec_call_fits old_g new_g (ButtonDown h c b) \<longleftrightarrow> (c, b) \<in> set (spec_downs old_g new_g)"
| "spec_call_fits old_g new_g (Buzz h c) \<longleftrightarrow> (c, 0) \<in> set (spec_downs old_g new_g)"
| "spec_call_fits old_g new_g (ButtonUp h c b) \<longleftrightarrow> (c, b) \<in> set (spec_ups old_g new_g)"


text \<open>
  Reactions: a handler that returns and does nothing to the session; a change handler
  that raises; a button-down handler that raises; a change handler that removes its own
  registration and makes it again; a change handler that registers a button-down
  handler and replaces the stored grid.
\<close>

definition quiet :: "'h BuzzerSet \<Rightarrow> 'h call \<Rightarrow> 'h reaction" where
  "quiet s c = ([], None)"

fun raising_change :: "nat BuzzerSet \<Rightarrow> nat call \<Rightarrow> nat reaction" where
  "raising_change s (Change h g) = ([], Some (HandlerError ''boom''))"
| "raising_change s other = ([], None)"

fun raising_down :: "nat BuzzerSet \<Rightarrow> nat call \<Rightarrow> nat reaction" where
  "raising_down s (ButtonDown h c b) = ([], Some (HandlerError ''boom''))"
| "raising_down s other = ([], None)"

fun swapping_change :: "nat BuzzerSet \<Rightarrow> nat call \<Rightarrow> nat reaction" where
  "swapping_change s (Change h g) =
     ([CallRemoveHandler ''state'', CallOnChange h (Some ''state'')], None)"
| "swapping_change s other = ([], None)"

fun registering_change :: "nat BuzzerSet \<Rightarrow> nat call \<Rightarrow> nat reaction" where
  "registering_change s (Change h g) =
     ([CallOnButtonDown 6 (Some ''late''), StateReplaced []], None)"
| "registering_change s other = ([], None)"

text \<open>The command of the wire format for a Light State.\<close>

definition spec_command :: "bool list \<Rightarrow> int list" where
  "spec_command ls = [0x00, 0x00] @ map (\<lambda>l. if l then 0xFF else 0x00) ls @ [0x00, 0x00]"

text \<open>
  The session \<^verbatim>\<open>__init__\<close> leaves for a path when the transport has answered both calls,
  and the same session with one handler or two in each registry.
\<close>

definition initial_session :: "path \<Rightarrow> 'h BuzzerSet" where
  "initial_session p =
     \<lparr>path = p, label = None,
      priv_lights = [False, False, False, False],
      priv_state = [[False, False, False, False, False],
                    [False, False, False, False, False],
                    [False, False, False, False, False],
                    [False, False, False, False, False]],
      priv_on_change = [], priv_on_buzz = [],
      priv_on_button_down = [], priv_on_button_up = [],
      priv_interface = Some p\<rparr>"

definition example_session :: "nat BuzzerSet" where
  "example_session =
     (initial_session [1])
       \<lparr>priv_on_change := [(''state'', 1)],
        priv_on_buzz := [(''buzz'', 2)],
        priv_on_button_down := [(''down'', 3), (''log'', 4)],
        priv_on_button_up := [(''up'', 5)]\<rparr>"

definition example_grid :: grid where
  "example_grid =
     [[True, False, False, False, True],
      [False, False, False, False, False],
      [False, False, False, False, False],
      [False, False, True, False, False]]"

text \<open>A value of \<^verbatim>\<open>str\<close> on callables, as Python prints a function.\<close>

definition example_str :: "nat \<Rightarrow> string" where
  "example_str h = ''<function handler>''"

text \<open>
  \<^verbatim>\<open>str\<close> on a callable object whose \<^verbatim>\<open>__str__\<close> returns the empty string.
\<close>

definition silent_str :: "nat \<Rightarrow> string" where
  "silent_str h = []"

text \<open>The session a reference points to, once initialised.\<close>

definition session_at :: "'h world \<Rightarrow> nat \<Rightarrow> 'h BuzzerSet option" where
  "session_at w a =
     (if a < length (heap w)
      then (case heap w ! a of Fresh \<Rightarrow> None | Initialised s \<Rightarrow> Some s)
      else None)"

text \<open>
  What happens to the world between two construction calls: another construction call,
  with the answers of the transport, whether it returns or raises; or a method of the
  session at a reference, that leaves the session changed (\<open>f\<close> is the session the method
  leaves, for the session it finds).
\<close>

datatype 'h event =
    Construct path "error option" "error option"
  | Method nat "'h BuzzerSet \<Rightarrow> 'h BuzzerSet"

definition method_at :: "'h world \<Rightarrow> nat \<Rightarrow> ('h BuzzerSet \<Rightarrow> 'h BuzzerSet) \<Rightarrow> 'h world" where
  "method_at w a f =
     (case session_at w a of
        None \<Rightarrow> w
      | Some s \<Rightarrow> w\<lparr>heap := (heap w)[a := Initialised (f s)]\<rparr>)"

fun BuzzerSet_run :: "'h world \<Rightarrow> 'h event list \<Rightarrow> 'h world" where
  "BuzzerSet_run w [] = w"
| "BuzzerSet_run w (Construct p ores wres # es) =
     BuzzerSet_run (fst (snd (BuzzerSet_call w p ores wres))) es"
| "BuzzerSet_run w (Method a f # es) = BuzzerSet_run (method_at w a f) es"



text \<open>
  A path is registered with a reference in a world of the program when the registry
  maps the path to the reference and the object there is initialised.
\<close>

definition registered :: "'h world \<Rightarrow> path \<Rightarrow> nat \<Rightarrow> bool" where
  "registered w p a \<longleftrightarrow>
     wf_world w \<and> dict_get (existing_buzzer_sets w) p = Some a
     \<and> (\<exists>s. heap w ! a = Initialised s)"

text \<open>
  A run between two construction calls: the first light of the session at reference 0 is
  set on, then a session is constructed for another path.
\<close>

definition example_events :: "nat event list" where
  "example_events =
     [Method 0 (\<lambda>s. fst (snd (set_lights s [True, False, False, False] None))),
      Construct [2] None None]"

section \<open>The decoder\<close>

lemma slice_2_5_long:
  assumes "5 \<le> length data"
  shows "slice_2_5 data = [data ! 2, data ! 3, data ! 4]"
proof -
  have "Suc (Suc (Suc (Suc (Suc 0)))) \<le> length data"
    using assms by simp
  then obtain a b c d e rest where "data = a # b # c # d # e # rest"
    by (auto simp add: Suc_le_length_iff)
  then show ?thesis
    by (simp add: slice_2_5_def)
qed

lemma and_pow_iff_bit: "((num::int) AND 2 ^ i) \<noteq> 0 \<longleftrightarrow> bit num i"
  by (simp add: and_exp_eq_0_iff_not_bit)

lemma upt_0_8: "[0..<8] = [0, 1, 2, 3, 4, 5, 6, 7]"
  by (simp add: upt_rec)

lemma upt_0_4: "[0..<4] = [0, 1, 2, 3]"
  by (simp add: upt_rec)

lemma upt_0_5: "[0..<5] = [0, 1, 2, 3, 4]"
  by (simp add: upt_rec)

lemma to_bools_long:
  "5 \<le> length data \<Longrightarrow>
   to_bools data =
     map (bit (data ! 2)) [0, 1, 2, 3, 4, 5, 6, 7]
     @ map (bit (data ! 3)) [0, 1, 2, 3, 4, 5, 6, 7]
     @ map (bit (data ! 4)) [0, 1, 2, 3, 4, 5, 6, 7]"
  by (simp add: to_bools_def slice_2_5_long and_pow_iff_bit upt_0_8)

lemma spec_field24_bit:
  "bit (spec_field24 r) k \<longleftrightarrow>
     (if k < 8 then bit (r ! 2) k
      else if k < 16 then bit (r ! 3) (k - 8)
      else if k < 24 then bit (r ! 4) (k - 16)
      else False)"
  by (auto simp add: spec_field24_def bit_simps)

lemma decode_state_long:
  "5 \<le> length data \<Longrightarrow> decode_state data = Inr (spec_grid (spec_field24 data))"
  by (simp add: decode_state_def to_bools_long getitem_def spec_grid_def
      spec_button_order_def spec_field24_bit upt_0_4 numeral_2_eq_2 [symmetric])

lemma spec_grid_low20:
  assumes "take_bit 20 (x::int) = take_bit 20 y"
  shows "spec_grid x = spec_grid y"
proof -
  have "bit x k = bit y k" if "k < 20" for k
    using assms that by (metis bit_take_bit_iff)
  then show ?thesis
    by (simp add: spec_grid_def spec_button_order_def upt_0_4)
qed

text \<open>
  C1. For a report of at least 5 bytes the decoder returns the grid whose row \<open>c\<close> is the
  cluster of bits \<open>5c .. 5c+4\<close> of the 24-bit field of the bytes at offsets 2, 3 and 4
  (least significant bit first), in the button order \<open>[bit 0, bit 4, bit 3, bit 2, bit 1]\<close>;
  and a report that has the same low 20 bits of the field decodes to the same grid, so
  the bits 20 to 23 never count.
\<close>

theorem decode_state_clusters:
  assumes "5 \<le> length report"
  shows "decode_state report = Inr (spec_grid (spec_field24 report))
         \<and> (\<forall>report'. 5 \<le> length report'
               \<and> take_bit 20 (spec_field24 report') = take_bit 20 (spec_field24 report)
             \<longrightarrow> decode_state report' = decode_state report)"
  using assms by (auto simp add: decode_state_long dest: spec_grid_low20)

theorem decode_state_clusters_witness:
  "decode_state [0, 0, 2, 0, 15] =
     Inr [[False, False, False, False, True],
          [False, False, False, False, False],
          [False, False, False, False, False],
          [False, True, True, True, True]]
   \<and> decode_state [9, 9, 2, 0, 255, 7] = decode_state [0, 0, 2, 0, 15]"
proof -
  have len: "5 \<le> length [0, 0, 2, 0, 15 :: int]"
    by simp
  have len': "5 \<le> length [9, 9, 2, 0, 255, 7 :: int]"
    by simp
  have low: "take_bit 20 (spec_field24 [9, 9, 2, 0, 255, 7])
             = take_bit 20 (spec_field24 [0, 0, 2, 0, 15])"
    by (simp add: spec_field24_def)
  have g: "spec_grid (spec_field24 [0, 0, 2, 0, 15]) =
     [[False, False, False, False, True],
      [False, False, False, False, False],
      [False, False, False, False, False],
      [False, True, True, True, True]]"
    by (simp add: spec_grid_def spec_button_order_def upt_0_4 spec_field24_bit)
  from decode_state_clusters [OF len] len' low g show ?thesis
    by (metis (no_types))
qed

section \<open>One state update\<close>

lemma in_cells: "(c, b) \<in> set cells \<longleftrightarrow> c < 4 \<and> b < 5"
  by (auto simp add: cells_def image_iff)

lemma distinct_cells: "distinct cells"
  by (simp add: cells_def upt_0_4 upt_0_5)

lemma wf_grid_cell:
  assumes "wf_grid g" and "c < 4" and "b < 5"
  shows "cell g c b = Some (g ! c ! b)"
proof -
  have "length g = 4" and "length (g ! c) = 5"
    using assms by (simp_all add: wf_grid_def list_all_length)
  then show ?thesis
    using assms by (simp add: cell_def getitem_def)
qed

lemma comprehension_filter:
  "(\<And>x. x \<in> set xs \<Longrightarrow> cond x = Some (q x)) \<Longrightarrow> comprehension cond xs = Some (filter q xs)"
  by (induction xs) simp_all

lemma button_downs_wf:
  assumes "wf_grid old_state" and "wf_grid new_state"
  shows "comprehension (down_cond new_state old_state) cells = Some (spec_downs old_state new_state)"
proof -
  have "down_cond new_state old_state x = Some (case x of (c, b) \<Rightarrow> \<not> old_state ! c ! b \<and> new_state ! c ! b)"
    if "x \<in> set cells" for x
  proof -
    obtain c b where x: "x = (c, b)" by (cases x)
    with that have "c < 4" "b < 5" by (simp_all add: in_cells)
    then show ?thesis
      using assms x by (auto simp add: down_cond_def wf_grid_cell)
  qed
  then show ?thesis
    unfolding spec_downs_def by (rule comprehension_filter)
qed

lemma button_ups_wf:
  assumes "wf_grid old_state" and "wf_grid new_state"
  shows "comprehension (up_cond new_state old_state) cells = Some (spec_ups old_state new_state)"
proof -
  have "up_cond new_state old_state x = Some (case x of (c, b) \<Rightarrow> old_state ! c ! b \<and> \<not> new_state ! c ! b)"
    if "x \<in> set cells" for x
  proof -
    obtain c b where x: "x = (c, b)" by (cases x)
    with that have "c < 4" "b < 5" by (simp_all add: in_cells)
    then show ?thesis
      using assms x by (auto simp add: up_cond_def wf_grid_cell)
  qed
  then show ?thesis
    unfolding spec_ups_def by (rule comprehension_filter)
qed

lemma any_py_iff: "any_py xs \<longleftrightarrow> xs \<noteq> []"
  by (cases xs) (simp_all add: any_py_def truthy_pair_def)

lemma spec_differs_iff:
  "spec_differs old_g new_g \<longleftrightarrow> spec_downs old_g new_g \<noteq> [] \<or> spec_ups old_g new_g \<noteq> []"
  by (auto simp add: spec_differs_def spec_downs_def spec_ups_def list_ex_iff filter_empty_conv)

subsection \<open>Handlers that return and leave the session alone\<close>

lemma for_values_quiet:
  assumes "\<forall>c. react s c = ([], None)" and "\<forall>i \<in> set positions. i < length (registry_of r s)"
  shows "for_values str_of react r mk (length (registry_of r s)) positions (s, None, False)
           = (Completed, s, map (\<lambda>i. mk (snd (registry_of r s ! i))) positions)"
  using assms
  by (induction positions) (simp_all add: next_check_def loop_dict_def dict_keys_def)

lemma map_by_position: "map (\<lambda>i. f (xs ! i)) [0..<length xs] = map f xs"
  by (rule nth_equalityI) simp_all

lemma for_loop_quiet:
  assumes "\<forall>c. react s c = ([], None)"
  shows "for_loop str_of react r mk s = (Completed, s, map mk (dict_values (registry_of r s)))"
proof -
  have "map (\<lambda>i. mk (snd (registry_of r s ! i))) [0..<length (registry_of r s)]
          = map (\<lambda>x. mk (snd x)) (registry_of r s)"
    by (rule map_by_position)
  moreover have "for_values str_of react r mk (length (registry_of r s))
      [0..<length (registry_of r s)] (s, None, False)
    = (Completed, s, map (\<lambda>i. mk (snd (registry_of r s ! i))) [0..<length (registry_of r s)])"
    using assms by (intro for_values_quiet) simp_all
  ultimately show ?thesis
    by (simp add: for_loop_def dict_values_def comp_def)
qed

lemma down_loop_quiet:
  assumes "\<forall>c. react s c = ([], None)"
  shows "down_loop str_of react xs s = (Completed, s, concat (map (fire_down s) xs))"
  using assms
  by (induction xs) (simp_all add: and_then_def for_loop_quiet fire_down_def)

lemma up_loop_quiet:
  assumes "\<forall>c. react s c = ([], None)"
  shows "up_loop str_of react xs s = (Completed, s, concat (map (fire_up s) xs))"
  using assms
  by (induction xs) (simp_all add: and_then_def for_loop_quiet fire_up_def)

lemma handle_event_quiet:
  assumes "wf_grid (priv_state self)" and "wf_grid new_state"
    and "\<forall>c. react (self\<lparr>priv_state := new_state\<rparr>) c = ([], None)"
  shows "handle_event str_of react self new_state =
           (Completed, self\<lparr>priv_state := new_state\<rparr>,
            if spec_differs (priv_state self) new_state
            then spec_dispatch (self\<lparr>priv_state := new_state\<rparr>) new_state
                   (spec_downs (priv_state self) new_state) (spec_ups (priv_state self) new_state)
            else [])"
  using assms
  by (simp add: handle_event_def Let_def button_downs_wf button_ups_wf any_py_iff
      spec_differs_iff and_then_def for_loop_quiet down_loop_quiet
      up_loop_quiet spec_dispatch_def fire_change_def)

lemma filter_is_Change_fire_change: "filter is_Change (fire_change self g) = fire_change self g"
  by (simp add: fire_change_def filter_map comp_def)

lemma filter_is_Change_fire_down: "filter is_Change (concat (map (fire_down self) xs)) = []"
  by (induction xs) (simp_all add: fire_down_def filter_map comp_def)

lemma filter_is_Change_fire_up: "filter is_Change (concat (map (fire_up self) xs)) = []"
  by (induction xs) (simp_all add: fire_up_def filter_map comp_def)

lemma length_ButtonDown_fire_down:
  "length (filter is_ButtonDown (concat (map (fire_down self) xs)))
     = length (dict_values (priv_on_button_down self)) * length xs"
  by (induction xs) (simp_all add: fire_down_def filter_map comp_def)

lemma length_ButtonDown_fire_up:
  "filter is_ButtonDown (concat (map (fire_up self) xs)) = []"
  by (induction xs) (simp_all add: fire_up_def filter_map comp_def)

lemma length_ButtonUp_fire_up:
  "length (filter is_ButtonUp (concat (map (fire_up self) xs)))
     = length (dict_values (priv_on_button_up self)) * length xs"
  by (induction xs) (simp_all add: fire_up_def filter_map comp_def)

lemma length_ButtonUp_fire_down:
  "filter is_ButtonUp (concat (map (fire_down self) xs)) = []"
  by (induction xs) (simp_all add: fire_down_def filter_map comp_def)

lemma filter_other_fire_change:
  "filter is_ButtonDown (fire_change self g) = []" "filter is_ButtonUp (fire_change self g) = []"
  by (simp_all add: fire_change_def filter_map comp_def)

lemma example_session_wf: "wf_grid (priv_state example_session)"
  by (simp add: example_session_def initial_session_def wf_grid_def)

lemma example_grid_wf: "wf_grid example_grid"
  by (simp add: example_grid_def wf_grid_def)

lemma cells_list:
  "cells = [(0, 0), (0, 1), (0, 2), (0, 3), (0, 4), (1, 0), (1, 1), (1, 2), (1, 3), (1, 4),
            (2, 0), (2, 1), (2, 2), (2, 3), (2, 4), (3, 0), (3, 1), (3, 2), (3, 3), (3, 4)]"
  by (simp add: cells_def upt_0_4 upt_0_5)

lemma example_downs:
  "spec_downs (priv_state example_session) example_grid = [(0, 0), (0, 4), (3, 2)]"
  by (simp add: spec_downs_def cells_list example_session_def initial_session_def example_grid_def)

lemma example_ups:
  "spec_ups (priv_state example_session) example_grid = []"
  by (simp add: spec_ups_def cells_list example_session_def initial_session_def example_grid_def)

lemma example_differs:
  "spec_differs (priv_state example_session) example_grid"
  by (simp add: spec_differs_iff example_downs)

lemma count_list_map_Buzz:
  "count_list (map (\<lambda>event. Buzz event c') hs) (Buzz h c)
     = (if c' = c then count_list hs h else 0)"
  by (induction hs) auto

lemma count_list_map_ButtonDown:
  "count_list (map (\<lambda>event. ButtonDown event c' b') hs) (ButtonDown h c b)
     = (if c' = c \<and> b' = b then count_list hs h else 0)"
  by (induction hs) auto

lemma count_list_map_other:
  "count_list (map (\<lambda>event. ButtonDown event c' b') hs) (Buzz h c) = 0"
  "count_list (map (\<lambda>event. Buzz event c') hs) (ButtonDown h c b) = 0"
  "count_list (map (\<lambda>event. ButtonUp event c' b') hs) (Buzz h c) = 0"
  "count_list (map (\<lambda>event. ButtonUp event c' b') hs) (ButtonDown h c b) = 0"
  "count_list (map (\<lambda>event. Change event g) hs) (Buzz h c) = 0"
  "count_list (map (\<lambda>event. Change event g) hs) (ButtonDown h c b) = 0"
  by (induction hs) simp_all

lemma count_list_append: "count_list (xs @ ys) y = count_list xs y + count_list ys y"
  by (induction xs) simp_all

lemma count_Buzz_fire_down:
  "count_list (fire_down self x) (Buzz h c)
     = (if x = (c, 0) then count_list (dict_values (priv_on_buzz self)) h else 0)"
  by (cases x) (simp add: fire_down_def count_list_append count_list_map_Buzz count_list_map_other)

lemma count_ButtonDown_fire_down:
  "count_list (fire_down self x) (ButtonDown h c b)
     = (if x = (c, b) then count_list (dict_values (priv_on_button_down self)) h else 0)"
  by (cases x)
    (simp add: fire_down_def count_list_append count_list_map_ButtonDown count_list_map_other)

lemma count_concat_distinct:
  assumes "distinct xs" and "\<And>x. count_list (f x) y = (if x = a then n else 0)"
  shows "count_list (concat (map f xs)) y = (if a \<in> set xs then n else 0)"
  using assms(1) by (induction xs) (auto simp add: count_list_append assms(2))

lemma count_concat_zero:
  assumes "\<And>x. count_list (f x) y = 0"
  shows "count_list (concat (map f xs)) y = 0"
  by (induction xs) (simp_all add: count_list_append assms)

lemma distinct_spec_downs: "distinct (spec_downs old_g new_g)"
  by (simp add: spec_downs_def distinct_cells)

lemma count_fire_up:
  "count_list (fire_up self x) (Buzz h c) = 0"
  "count_list (fire_up self x) (ButtonDown h c b) = 0"
  by (simp_all add: fire_up_def count_list_map_other)

lemma count_fire_change:
  "count_list (fire_change self g) (Buzz h c) = 0"
  "count_list (fire_change self g) (ButtonDown h c b) = 0"
  by (simp_all add: fire_change_def count_list_map_other)

lemma count_dispatch_Buzz:
  assumes "distinct downs"
  shows "count_list (spec_dispatch self g downs ups) (Buzz h c)
     = (if (c, 0) \<in> set downs then count_list (dict_values (priv_on_buzz self)) h else 0)"
  by (simp add: spec_dispatch_def count_list_append count_fire_change
      count_concat_zero [of "fire_up self", OF count_fire_up(1)]
      count_concat_distinct [OF assms count_Buzz_fire_down])

lemma count_dispatch_ButtonDown:
  assumes "distinct downs"
  shows "count_list (spec_dispatch self g downs ups) (ButtonDown h c b)
     = (if (c, b) \<in> set downs then count_list (dict_values (priv_on_button_down self)) h else 0)"
  by (simp add: spec_dispatch_def count_list_append count_fire_change
      count_concat_zero [of "fire_up self", OF count_fire_up(2)]
      count_concat_distinct [OF assms count_ButtonDown_fire_down])

lemma list_all_fire_change: "list_all is_Change (fire_change self g)"
  by (simp add: fire_change_def list_all_iff)

lemma list_all_fire_down:
  "list_all (\<lambda>x. is_ButtonDown x \<or> is_Buzz x) (concat (map (fire_down self) xs))"
  by (induction xs) (auto simp add: fire_down_def list_all_iff)

lemma list_all_fire_up: "list_all is_ButtonUp (concat (map (fire_up self) xs))"
  by (induction xs) (auto simp add: fire_up_def list_all_iff)


subsection \<open>Any handlers\<close>










subsection \<open>Examples\<close>

lemma example_raising_change:
  "handle_event example_str raising_change example_session example_grid
     = (Failed (HandlerError ''boom''), example_session\<lparr>priv_state := example_grid\<rparr>,
        [Change 1 example_grid])"
  by code_simp

lemma example_raising_down:
  "handle_event example_str raising_down example_session example_grid
     = (Failed (HandlerError ''boom''), example_session\<lparr>priv_state := example_grid\<rparr>,
        [Change 1 example_grid, ButtonDown 3 0 0])"
  by code_simp

lemma example_registering_change:
  "snd (snd (handle_event example_str registering_change example_session example_grid))
     = [Change 1 example_grid,
        ButtonDown 3 0 0, ButtonDown 4 0 0, ButtonDown 6 0 0, Buzz 2 0,
        ButtonDown 3 0 4, ButtonDown 4 0 4, ButtonDown 6 0 4,
        ButtonDown 3 3 2, ButtonDown 4 3 2, ButtonDown 6 3 2]"
  by code_simp

text \<open>
  A change handler that removes its own registration and makes it again: the dict has
  its size and its keys again when the loop asks for the next value, and what Python
  does then is not determined by the dict as a mapping.
\<close>

lemma example_swapping_change:
  "handle_event example_str swapping_change example_session example_grid
     = (Unspecified, example_session\<lparr>priv_state := example_grid\<rparr>, [Change 1 example_grid])"
  by code_simp

lemma quiet_all: "\<forall>c. quiet s c = ([], None)"
  by (simp add: quiet_def)

subsection \<open>The claims on one state update\<close>

text \<open>
  C2, as the code has it. One state update from the stored grid to a new grid, both of
  4 rows of 5 cells, in which every handler returns and does nothing to the session:
  the update completes; when a cell differs, the change calls are one call for each
  registered change handler, with the new grid; when no cell differs there is no call
  at all. The button-down calls number the registered button-down handlers times the
  cells that went from false to true, the button-up calls the registered button-up
  handlers times the cells that went from true to false.
\<close>

theorem handle_event_counts:
  assumes "wf_grid (priv_state self)" and "wf_grid new_state"
    and "\<forall>c. react (self\<lparr>priv_state := new_state\<rparr>) c = ([], None)"
  shows "fst (handle_event str_of react self new_state) = Completed
    \<and> get_buttons_state (fst (snd (handle_event str_of react self new_state))) = new_state
    \<and> (if spec_differs (priv_state self) new_state
        then filter is_Change (snd (snd (handle_event str_of react self new_state)))
               = map (\<lambda>h. Change h new_state) (dict_values (priv_on_change self))
        else snd (snd (handle_event str_of react self new_state)) = [])
    \<and> length (filter is_ButtonDown (snd (snd (handle_event str_of react self new_state))))
        = length (dict_values (priv_on_button_down self))
          * length (spec_downs (priv_state self) new_state)
    \<and> length (filter is_ButtonUp (snd (snd (handle_event str_of react self new_state))))
        = length (dict_values (priv_on_button_up self))
          * length (spec_ups (priv_state self) new_state)"
proof (cases "spec_differs (priv_state self) new_state")
  case True
  then show ?thesis
    by (simp add: handle_event_quiet [where react = react and self = self and new_state = new_state and str_of = str_of, OF assms] spec_dispatch_def get_buttons_state_def
        filter_is_Change_fire_change filter_is_Change_fire_down filter_is_Change_fire_up
        length_ButtonDown_fire_down length_ButtonDown_fire_up length_ButtonUp_fire_up
        length_ButtonUp_fire_down filter_other_fire_change)
      (simp add: fire_change_def)
next
  case False
  then have "spec_downs (priv_state self) new_state = []" "spec_ups (priv_state self) new_state = []"
    by (simp_all add: spec_differs_iff)
  with False show ?thesis
    by (simp add: handle_event_quiet [where react = react and self = self and new_state = new_state and str_of = str_of, OF assms] get_buttons_state_def)
qed

theorem handle_event_counts_witness:
  "wf_grid (priv_state example_session) \<and> wf_grid example_grid
   \<and> (\<forall>c. quiet (example_session\<lparr>priv_state := example_grid\<rparr>) c = ([], None))
   \<and> fst (handle_event example_str quiet example_session example_grid) = Completed
   \<and> filter is_Change (snd (snd (handle_event example_str quiet example_session example_grid)))
       = [Change 1 example_grid]
   \<and> length (filter is_ButtonDown
        (snd (snd (handle_event example_str quiet example_session example_grid)))) = 2 * 3
   \<and> length (filter is_ButtonUp
        (snd (snd (handle_event example_str quiet example_session example_grid)))) = 1 * 0"
proof -
  have regs: "dict_values (priv_on_change example_session) = [1]"
    "dict_values (priv_on_button_down example_session) = [3, 4]"
    "dict_values (priv_on_button_up example_session) = [5]"
    by (simp_all add: example_session_def dict_values_def)
  have q: "\<forall>c. quiet (example_session\<lparr>priv_state := example_grid\<rparr>) c = ([], None)"
    by (rule quiet_all)
  note t = handle_event_counts
    [where react = quiet and str_of = example_str and self = example_session
       and new_state = example_grid, OF example_session_wf example_grid_wf q]
  have 1: "fst (handle_event example_str quiet example_session example_grid) = Completed"
    using t by (rule conjunct1)
  have 2: "filter is_Change (snd (snd (handle_event example_str quiet example_session example_grid)))
       = [Change 1 example_grid]"
    using t by (simp add: example_differs regs)
  have 3: "length (filter is_ButtonDown
        (snd (snd (handle_event example_str quiet example_session example_grid)))) = 2 * 3"
    using t by (simp add: example_downs regs)
  have 4: "length (filter is_ButtonUp
        (snd (snd (handle_event example_str quiet example_session example_grid)))) = 1 * 0"
    using t by (simp add: example_ups regs)
  show ?thesis
    using example_session_wf example_grid_wf q 1 2 3 4 by (intro conjI)
qed

text \<open>
  C2, as the claim has it, fails: nothing catches the exception of a handler, and every
  loop reads its registry when it starts. With two button-down handlers registered and
  three cells that went down, a change handler that raises ends the update after its
  own call, with no button-down call; and a change handler that registers a button-down
  handler brings nine button-down calls, not six.
\<close>

theorem handle_event_counts_counterexample:
  "spec_differs (priv_state example_session) example_grid
   \<and> dict_values (priv_on_button_down example_session) = [3, 4]
   \<and> spec_downs (priv_state example_session) example_grid = [(0, 0), (0, 4), (3, 2)]
   \<and> handle_event example_str raising_change example_session example_grid
       = (Failed (HandlerError ''boom''), example_session\<lparr>priv_state := example_grid\<rparr>,
          [Change 1 example_grid])
   \<and> length (filter is_ButtonDown
        (snd (snd (handle_event example_str raising_change example_session example_grid)))) = 0
   \<and> length (filter is_ButtonDown
        (snd (snd (handle_event example_str registering_change example_session example_grid)))) = 9"
  by (simp add: example_differs example_downs example_raising_change example_registering_change)
    (simp add: example_session_def dict_values_def)

text \<open>
  C3, as the code has it. In one state update in which every handler returns and does
  nothing to the session, for every buzzer \<open>c\<close> the buzz calls for \<open>c\<close> are one call for
  each registered buzz handler when the cell \<open>(c, 0)\<close> went from false to true, and none
  otherwise: a cell of another button that goes down brings no buzz call. The
  button-down calls for a cell that went down, the cell \<open>(c, 0)\<close> too, are one call for
  each registered button-down handler, so the buzz calls come on top of them.
\<close>

theorem handle_event_buzz:
  assumes "wf_grid (priv_state self)" and "wf_grid new_state"
    and "\<forall>c. react (self\<lparr>priv_state := new_state\<rparr>) c = ([], None)"
  shows "count_list (snd (snd (handle_event str_of react self new_state))) (Buzz h c)
           = (if (c, 0) \<in> set (spec_downs (priv_state self) new_state)
              then count_list (dict_values (priv_on_buzz self)) h else 0)
       \<and> count_list (snd (snd (handle_event str_of react self new_state))) (ButtonDown h c b)
           = (if (c, b) \<in> set (spec_downs (priv_state self) new_state)
              then count_list (dict_values (priv_on_button_down self)) h else 0)"
proof (cases "spec_differs (priv_state self) new_state")
  case True
  then show ?thesis
    by (simp add: handle_event_quiet [where react = react and self = self and new_state = new_state and str_of = str_of, OF assms]
        count_dispatch_Buzz [OF distinct_spec_downs]
        count_dispatch_ButtonDown [OF distinct_spec_downs])
next
  case False
  then have "spec_downs (priv_state self) new_state = []"
    by (simp add: spec_differs_iff)
  with False show ?thesis
    by (simp add: handle_event_quiet [where react = react and self = self and new_state = new_state and str_of = str_of, OF assms])
qed

theorem handle_event_buzz_witness:
  "wf_grid (priv_state example_session) \<and> wf_grid example_grid
   \<and> (\<forall>c. quiet (example_session\<lparr>priv_state := example_grid\<rparr>) c = ([], None))
   \<and> count_list (snd (snd (handle_event example_str quiet example_session example_grid)))
        (Buzz 2 0) = 1
   \<and> count_list (snd (snd (handle_event example_str quiet example_session example_grid)))
        (ButtonDown 3 0 0) = 1
   \<and> count_list (snd (snd (handle_event example_str quiet example_session example_grid)))
        (Buzz 2 3) = 0
   \<and> count_list (snd (snd (handle_event example_str quiet example_session example_grid)))
        (ButtonDown 3 3 2) = 1"
proof -
  have regs: "dict_values (priv_on_buzz example_session) = [2]"
    "dict_values (priv_on_button_down example_session) = [3, 4]"
    by (simp_all add: example_session_def dict_values_def)
  have q: "\<forall>c. quiet (example_session\<lparr>priv_state := example_grid\<rparr>) c = ([], None)"
    by (rule quiet_all)
  note t = handle_event_buzz
    [where react = quiet and str_of = example_str and self = example_session
       and new_state = example_grid, OF example_session_wf example_grid_wf q]
  have 1: "count_list (snd (snd (handle_event example_str quiet example_session example_grid)))
        (Buzz 2 0) = 1"
    using t [where h = 2 and c = 0 and b = 0] by (simp add: example_downs regs)
  have 2: "count_list (snd (snd (handle_event example_str quiet example_session example_grid)))
        (ButtonDown 3 0 0) = 1"
    using t [where h = 3 and c = 0 and b = 0] by (simp add: example_downs regs)
  have 3: "count_list (snd (snd (handle_event example_str quiet example_session example_grid)))
        (Buzz 2 3) = 0"
    using t [where h = 2 and c = 3 and b = 2] by (simp add: example_downs regs)
  have 4: "count_list (snd (snd (handle_event example_str quiet example_session example_grid)))
        (ButtonDown 3 3 2) = 1"
    using t [where h = 3 and c = 3 and b = 2] by (simp add: example_downs regs)
  show ?thesis
    using example_session_wf example_grid_wf q 1 2 3 4 by (intro conjI)
qed

text \<open>
  C3, as the claim has it, fails: the cell \<open>(0, 0)\<close> went down and the buzz handler 2
  is registered, but the first button-down handler raises, which ends the update: the
  buzz handler is not called, nor the second button-down handler.
\<close>

theorem handle_event_buzz_counterexample:
  "(0, 0) \<in> set (spec_downs (priv_state example_session) example_grid)
   \<and> dict_values (priv_on_buzz example_session) = [2]
   \<and> dict_values (priv_on_button_down example_session) = [3, 4]
   \<and> handle_event example_str raising_down example_session example_grid
       = (Failed (HandlerError ''boom''), example_session\<lparr>priv_state := example_grid\<rparr>,
          [Change 1 example_grid, ButtonDown 3 0 0])
   \<and> count_list (snd (snd (handle_event example_str raising_down example_session example_grid)))
        (Buzz 2 0) = 0
   \<and> count_list (snd (snd (handle_event example_str raising_down example_session example_grid)))
        (ButtonDown 4 0 0) = 0"
  by (simp add: example_downs example_raising_down)
    (simp add: example_session_def dict_values_def)

lemma spec_call_fits_Change: "spec_call_fits old_g new_g (Change h new_g)"
  by simp






section \<open>Lights\<close>

text \<open>
  C5. For every four booleans, \<^verbatim>\<open>set_lights([a, b, c, d])\<close> with a write that succeeds
  returns, \<^verbatim>\<open>get_lights_state()\<close> is then \<open>[a, b, c, d]\<close>, and the one call made on the
  transport is the write of the 8 bytes \<open>[0, 0, L0, L1, L2, L3, 0, 0]\<close>, \<open>Li\<close> being 255
  for true and 0 for false.
\<close>

theorem set_lights_round_trip:
  "fst (set_lights self [a, b, c, d] None) = Returned ()
   \<and> get_lights_state (fst (snd (set_lights self [a, b, c, d] None))) = [a, b, c, d]
   \<and> snd (snd (set_lights self [a, b, c, d] None))
       = [Write [0x00, 0x00,
                 if a then 0xFF else 0x00, if b then 0xFF else 0x00,
                 if c then 0xFF else 0x00, if d then 0xFF else 0x00,
                 0x00, 0x00]]"
  by (simp add: set_lights_def get_lights_state_def)

text \<open>
  C6, as the code has it. When the write of \<^verbatim>\<open>set_lights\<close> raises, the error reaches the
  caller, and the stored Light State is the list that was passed: it is stored before
  the write and stays.
\<close>

theorem set_lights_write_error:
  "fst (set_lights self ls (Some e)) = Raised e
   \<and> get_lights_state (fst (snd (set_lights self ls (Some e)))) = ls
   \<and> snd (snd (set_lights self ls (Some e))) = [Write (spec_command ls)]"
  by (simp add: set_lights_def get_lights_state_def spec_command_def)

text \<open>
  C6, as the claim has it, fails: on a session with all lights off, a write that raises
  leaves the first light recorded as on.
\<close>

theorem set_lights_no_rollback_counterexample:
  "fst (set_lights (initial_session [1] :: nat BuzzerSet) [True, False, False, False]
          (Some (TransportError ''write failed'')))
     = Raised (TransportError ''write failed'')
   \<and> get_lights_state (initial_session [1] :: nat BuzzerSet) = [False, False, False, False]
   \<and> get_lights_state
         (fst (snd (set_lights (initial_session [1] :: nat BuzzerSet)
                      [True, False, False, False] (Some (TransportError ''write failed'')))))
       = [True, False, False, False]
   \<and> get_lights_state
         (fst (snd (set_lights (initial_session [1] :: nat BuzzerSet)
                      [True, False, False, False] (Some (TransportError ''write failed'')))))
       \<noteq> get_lights_state (initial_session [1] :: nat BuzzerSet)"
  by (simp add: set_lights_def get_lights_state_def initial_session_def)

lemma setitem_in_range:
  "0 \<le> i \<Longrightarrow> nat i < length xs \<Longrightarrow> setitem xs i v = Some (xs[nat i := v])"
  by (simp add: setitem_def Let_def)

text \<open>
  C9. With a stored Light State of 4 elements, for every index \<open>i\<close> from 0 to 3 and
  every boolean \<open>v\<close>, \<^verbatim>\<open>set_light(i, v)\<close> leaves a Light State whose element \<open>i\<close> is \<open>v\<close> and
  whose other elements are as before, and makes one call on the transport: the write of
  the full command of 8 bytes for the new Light State.
\<close>

theorem set_light_frame:
  assumes "length (priv_lights self) = 4" and "0 \<le> i" and "i < 4"
  shows "get_lights_state (fst (snd (set_light self i v wres))) ! nat i = v
    \<and> (\<forall>j < 4. j \<noteq> nat i \<longrightarrow>
          get_lights_state (fst (snd (set_light self i v wres))) ! j = priv_lights self ! j)
    \<and> length (get_lights_state (fst (snd (set_light self i v wres)))) = 4
    \<and> snd (snd (set_light self i v wres))
        = [Write (spec_command (get_lights_state (fst (snd (set_light self i v wres)))))]
    \<and> length (spec_command (get_lights_state (fst (snd (set_light self i v wres))))) = 8
    \<and> set_light self i v wres = set_lights self ((priv_lights self)[nat i := v]) wres"
  using assms
  by (simp add: set_light_def setitem_in_range set_lights_def get_lights_state_def
      spec_command_def)

theorem set_light_frame_witness:
  "length (priv_lights (initial_session [1] :: nat BuzzerSet)) = 4 \<and> (0::int) \<le> 2 \<and> (2::int) < 4
   \<and> get_lights_state (fst (snd (set_light (initial_session [1] :: nat BuzzerSet) 2 True None)))
       = [False, False, True, False]
   \<and> snd (snd (set_light (initial_session [1] :: nat BuzzerSet) 2 True None))
       = [Write [0, 0, 0, 0, 255, 0, 0, 0]]"
proof -
  have len: "length (priv_lights (initial_session [1] :: nat BuzzerSet)) = 4"
    by (simp add: initial_session_def)
  have upd: "(priv_lights (initial_session [1] :: nat BuzzerSet))[2 := True]
               = [False, False, True, False]"
    by (simp add: initial_session_def)
  have i: "(0::int) \<le> 2" "(2::int) < 4"
    by simp_all
  from set_light_frame [OF len i, of True None]
  have "set_light (initial_session [1] :: nat BuzzerSet) 2 True None
          = set_lights (initial_session [1]) [False, False, True, False] None"
    by (simp add: upd)
  then show ?thesis
    using len by (simp add: set_lights_def get_lights_state_def)
qed

section \<open>Construction\<close>

lemma dict_setitem_fresh: "dict_get d k = None \<Longrightarrow> dict_setitem d k v = d @ [(k, v)]"
  by (induction d) (auto simp add: dict_get_def split: if_splits)

lemma dict_get_append_fresh:
  "dict_get d k = None \<Longrightarrow> dict_get (d @ [(k, v)]) k' = (if k' = k then Some v else dict_get d k')"
  by (auto simp add: dict_get_def map_add_def map_of_append split: option.splits)

lemma dict_get_in_set: "dict_get d k = Some v \<Longrightarrow> (k, v) \<in> set d"
  by (simp add: dict_get_def map_of_SomeD)

lemma dict_get_None_keys: "dict_get d k = None \<longleftrightarrow> k \<notin> set (dict_keys d)"
  by (simp add: dict_get_def dict_keys_def map_of_eq_None_iff)

lemma dict_values_inj:
  assumes "distinct (dict_values d)" and "(p, a) \<in> set d" and "(q, a) \<in> set d"
  shows "p = q"
proof -
  have "inj_on snd (set d)"
    using assms(1) by (simp add: dict_values_def distinct_map)
  from inj_onD [OF this _ assms(2) assms(3)] show ?thesis
    by simp
qed

lemma wf_world_in_heap:
  "wf_world w \<Longrightarrow> dict_get (existing_buzzer_sets w) p = Some a \<Longrightarrow> a < length (heap w)"
  by (auto simp add: wf_world_def dict_values_def list_all_iff dest!: dict_get_in_set)

lemma BuzzerSet_init_Initialised:
  "\<exists>s. fst (snd (BuzzerSet_init ob p lbl ores wres)) = Initialised s"
  by (cases ob; cases ores; cases wres)
    (simp_all add: BuzzerSet_init_def set_lights_off_def set_lights_def)

lemma replicate_4: "replicate 4 x = [x, x, x, x]"
  by (simp add: numeral_eq_Suc)

lemma replicate_5: "replicate 5 x = [x, x, x, x, x]"
  by (simp add: numeral_eq_Suc)

lemma BuzzerSet_init_fresh:
  "BuzzerSet_init Fresh p None None None =
     (Returned (), Initialised (initial_session p),
      [OpenPath p, Write [0, 0, 0, 0, 0, 0, 0, 0]])"
  by (simp add: BuzzerSet_init_def set_lights_off_def set_lights_def initial_session_def
      replicate_4 replicate_5)

lemma BuzzerSet_init_again:
  "BuzzerSet_init (Initialised s) p lbl ores wres = (Returned (), Initialised s, [])"
  by (simp add: BuzzerSet_init_def)

lemma BuzzerSet_call_existing:
  assumes "dict_get (existing_buzzer_sets w) p = Some a" and "heap w ! a = Initialised s"
  shows "BuzzerSet_call w p ores wres = (Returned a, w, [])"
proof -
  have "(heap w)[a := Initialised s] = heap w"
    using assms(2) by (metis list_update_id)
  then show ?thesis
    using assms by (simp add: BuzzerSet_call_def BuzzerSet_new_def BuzzerSet_init_again)
qed

lemma BuzzerSet_new_reference:
  "fst (BuzzerSet_new w p) =
     (case dict_get (existing_buzzer_sets w) p of Some a \<Rightarrow> a | None \<Rightarrow> length (heap w))"
  by (simp add: BuzzerSet_new_def Let_def split: option.splits)

lemma BuzzerSet_call_reference:
  assumes "fst (BuzzerSet_call w p ores wres) = Returned a"
  shows "a = fst (BuzzerSet_new w p)"
proof -
  obtain i w1 where n: "BuzzerSet_new w p = (i, w1)"
    by (cases "BuzzerSet_new w p")
  obtain r ob ios where "BuzzerSet_init (heap w1 ! i) p None ores wres = (r, ob, ios)"
    by (cases "BuzzerSet_init (heap w1 ! i) p None ores wres")
  with n assms show ?thesis
    by (cases r) (simp_all add: BuzzerSet_call_def)
qed

lemma BuzzerSet_call_world:
  fixes w :: "'h world"
  assumes "BuzzerSet_call w p ores wres = (r, w', ios)"
  shows "w' =
     (case dict_get (existing_buzzer_sets w) p of
        Some a \<Rightarrow>
          w\<lparr>heap := (heap w)[a := fst (snd (BuzzerSet_init (heap w ! a) p None ores wres))]\<rparr>
      | None \<Rightarrow>
          w\<lparr>heap := heap w @ [fst (snd (BuzzerSet_init Fresh p None ores wres))],
            existing_buzzer_sets := existing_buzzer_sets w @ [(p, length (heap w))]\<rparr>)"
proof (cases "dict_get (existing_buzzer_sets w) p")
  case None
  obtain r0 ob ios0 where "BuzzerSet_init (Fresh :: 'h obj) p None ores wres = (r0, ob, ios0)"
    by (cases "BuzzerSet_init (Fresh :: 'h obj) p None ores wres")
  with None assms show ?thesis
    by (auto simp add: BuzzerSet_call_def BuzzerSet_new_def Let_def dict_setitem_fresh)
next
  case (Some a)
  obtain r0 ob ios0 where "BuzzerSet_init (heap w ! a) p None ores wres = (r0, ob, ios0)"
    by (cases "BuzzerSet_init (heap w ! a) p None ores wres")
  with Some assms show ?thesis
    by (auto simp add: BuzzerSet_call_def BuzzerSet_new_def)
qed

lemma BuzzerSet_call_registers:
  fixes w :: "'h world"
  assumes "wf_world w" and "BuzzerSet_call w p ores wres = (r, w', ios)"
  shows "dict_get (existing_buzzer_sets w') p = Some (fst (BuzzerSet_new w p))
       \<and> fst (BuzzerSet_new w p) < length (heap w')
       \<and> (\<exists>s. heap w' ! fst (BuzzerSet_new w p) = Initialised s)"
proof (cases "dict_get (existing_buzzer_sets w) p")
  case None
  obtain s where s: "fst (snd (BuzzerSet_init (Fresh :: 'h obj) p None ores wres)) = Initialised s"
    using BuzzerSet_init_Initialised by blast
  have "w' = w\<lparr>heap := heap w @ [Initialised s],
            existing_buzzer_sets := existing_buzzer_sets w @ [(p, length (heap w))]\<rparr>"
    using BuzzerSet_call_world [OF assms(2)] None s by simp
  with None show ?thesis
    by (simp add: BuzzerSet_new_reference dict_get_append_fresh)
next
  case (Some a)
  then have a: "a < length (heap w)"
    using assms(1) by (rule wf_world_in_heap [rotated])
  obtain s where s: "fst (snd (BuzzerSet_init (heap w ! a) p None ores wres)) = Initialised s"
    using BuzzerSet_init_Initialised by blast
  have "w' = w\<lparr>heap := (heap w)[a := Initialised s]\<rparr>"
    using BuzzerSet_call_world [OF assms(2)] Some s by simp
  with Some a show ?thesis
    by (simp add: BuzzerSet_new_reference)
qed

lemma wf_world0: "wf_world world0"
  by (simp add: wf_world_def world0_def dict_values_def dict_keys_def)

lemma wf_world_update:
  "wf_world w \<Longrightarrow> wf_world (w\<lparr>heap := (heap w)[a := ob]\<rparr>)"
  by (simp add: wf_world_def)

lemma wf_world_extend:
  assumes "wf_world w" and "dict_get (existing_buzzer_sets w) p = None"
  shows "wf_world (w\<lparr>heap := heap w @ [ob],
            existing_buzzer_sets := existing_buzzer_sets w @ [(p, length (heap w))]\<rparr>)"
proof -
  have keys: "p \<notin> set (dict_keys (existing_buzzer_sets w))"
    using assms(2) by (simp add: dict_get_None_keys)
  have below: "\<forall>a \<in> set (dict_values (existing_buzzer_sets w)). a < length (heap w)"
    using assms(1) by (simp add: wf_world_def list_all_iff)
  then have fresh: "length (heap w) \<notin> set (dict_values (existing_buzzer_sets w))"
    by auto
  from below have "\<forall>a \<in> set (dict_values (existing_buzzer_sets w)). a < Suc (length (heap w))"
    by (simp add: less_Suc_eq)
  with keys fresh assms(1) show ?thesis
    by (simp add: wf_world_def dict_values_def dict_keys_def list_all_iff)
qed

lemma BuzzerSet_call_wf:
  assumes "wf_world w" and "BuzzerSet_call w p ores wres = (r, w', ios)"
  shows "wf_world w'"
proof (cases "dict_get (existing_buzzer_sets w) p")
  case None
  with BuzzerSet_call_world [OF assms(2)] wf_world_extend [OF assms(1) None] show ?thesis
    by simp
next
  case (Some a)
  with BuzzerSet_call_world [OF assms(2)] wf_world_update [OF assms(1)] show ?thesis
    by simp
qed

lemma BuzzerSet_call_fresh_value:
  assumes "dict_get (existing_buzzer_sets w) p = None"
  shows "BuzzerSet_call w p None None =
      (Returned (length (heap w)),
       w\<lparr>heap := heap w @ [Initialised (initial_session p)],
         existing_buzzer_sets := existing_buzzer_sets w @ [(p, length (heap w))]\<rparr>,
       [OpenPath p, Write [0, 0, 0, 0, 0, 0, 0, 0]])"
  using assms
  by (simp add: BuzzerSet_call_def BuzzerSet_new_def Let_def dict_setitem_fresh
      BuzzerSet_init_fresh)

text \<open>
  C7. The call \<^verbatim>\<open>BuzzerSet(path)\<close> for a path that has no session, with a transport that
  answers both calls, returns a new reference, registers it for the path, and makes two
  calls on the transport: it opens the path, then writes the all-off command. The
  session at the reference is open at the path, \<^verbatim>\<open>get_buttons_state()\<close> on it is the
  grid of 4 rows of 5 false cells and \<^verbatim>\<open>get_lights_state()\<close> is four times false.
\<close>

theorem BuzzerSet_call_fresh:
  assumes "dict_get (existing_buzzer_sets w) p = None"
  shows "fst (BuzzerSet_call w p None None) = Returned (length (heap w))
    \<and> snd (snd (BuzzerSet_call w p None None)) = [OpenPath p, Write [0, 0, 0, 0, 0, 0, 0, 0]]
    \<and> dict_get (existing_buzzer_sets (fst (snd (BuzzerSet_call w p None None)))) p
        = Some (length (heap w))
    \<and> map_option priv_interface
          (session_at (fst (snd (BuzzerSet_call w p None None))) (length (heap w)))
        = Some (Some p)
    \<and> map_option get_buttons_state
          (session_at (fst (snd (BuzzerSet_call w p None None))) (length (heap w)))
        = Some (replicate 4 (replicate 5 False))
    \<and> map_option get_lights_state
          (session_at (fst (snd (BuzzerSet_call w p None None))) (length (heap w)))
        = Some [False, False, False, False]"
proof -
  note call = BuzzerSet_call_fresh_value [OF assms]
  have at: "session_at
      (w\<lparr>heap := heap w @ [Initialised (initial_session p)],
         existing_buzzer_sets := existing_buzzer_sets w @ [(p, length (heap w))]\<rparr>)
      (length (heap w)) = Some (initial_session p)"
    by (simp add: session_at_def)
  show ?thesis
    using assms
    by (simp add: call at dict_get_append_fresh)
      (simp add: get_buttons_state_def get_lights_state_def initial_session_def
        replicate_4 replicate_5)
qed

theorem BuzzerSet_call_fresh_witness:
  "dict_get (existing_buzzer_sets (world0 :: nat world)) [1] = None
   \<and> fst (BuzzerSet_call (world0 :: nat world) [1] None None) = Returned 0
   \<and> snd (snd (BuzzerSet_call (world0 :: nat world) [1] None None))
       = [OpenPath [1], Write [0, 0, 0, 0, 0, 0, 0, 0]]
   \<and> map_option get_lights_state
         (session_at (fst (snd (BuzzerSet_call (world0 :: nat world) [1] None None))) 0)
       = Some [False, False, False, False]"
proof -
  have none: "dict_get (existing_buzzer_sets (world0 :: nat world)) [1] = None"
    by (simp add: world0_def dict_get_def)
  have len: "length (heap (world0 :: nat world)) = 0"
    by (simp add: world0_def)
  from BuzzerSet_call_fresh [OF none] none show ?thesis
    by (simp add: len)
qed

lemma BuzzerSet_call_registered:
  assumes "wf_world w" and "dict_get (existing_buzzer_sets w) p = Some a"
    and "heap w ! a = Initialised s"
  shows "BuzzerSet_call w p ores wres = (Returned a, w, [])
    \<and> (\<forall>q b. q \<noteq> p \<and> fst (BuzzerSet_call w q ores wres) = Returned b \<longrightarrow> b \<noteq> a)"
proof -
  have len: "a < length (heap w)"
    using assms(1,2) by (rule wf_world_in_heap)
  have same: "BuzzerSet_call w p ores wres = (Returned a, w, [])"
    using assms(2,3) by (rule BuzzerSet_call_existing)
  have other: "b \<noteq> a" if "q \<noteq> p" and "fst (BuzzerSet_call w q ores wres) = Returned b" for q b
  proof (cases "dict_get (existing_buzzer_sets w) q")
    case None
    have "b = fst (BuzzerSet_new w q)"
      using that(2) by (rule BuzzerSet_call_reference)
    with None have "b = length (heap w)"
      by (simp add: BuzzerSet_new_reference)
    with len show ?thesis by simp
  next
    case (Some b')
    have "b = fst (BuzzerSet_new w q)"
      using that(2) by (rule BuzzerSet_call_reference)
    with Some have "b = b'"
      by (simp add: BuzzerSet_new_reference)
    with Some have "(q, b) \<in> set (existing_buzzer_sets w)"
      by (simp add: dict_get_in_set)
    moreover have "(p, a) \<in> set (existing_buzzer_sets w)"
      using assms(2) by (rule dict_get_in_set)
    moreover have "distinct (dict_values (existing_buzzer_sets w))"
      using assms(1) by (simp add: wf_world_def)
    ultimately have "b = a \<Longrightarrow> q = p"
      using dict_values_inj [of "existing_buzzer_sets w" q a p] by simp
    with that(1) show ?thesis
      by blast
  qed
  show ?thesis
  proof (intro conjI allI impI)
    show "BuzzerSet_call w p ores wres = (Returned a, w, [])"
      by (rule same)
  next
    fix q b
    assume "q \<noteq> p \<and> fst (BuzzerSet_call w q ores wres) = Returned b"
    then show "b \<noteq> a"
      using other [of q b] by (elim conjE)
  qed
qed

lemma dict_get_append_kept:
  "dict_get d p = Some a \<Longrightarrow> dict_get (d @ e) p = Some a"
  by (simp add: dict_get_def map_of_append)

lemma registered_call:
  assumes "registered w p a" and "BuzzerSet_call w q ores wres = (r, w', ios)"
  shows "registered w' p a"
proof -
  have wf: "wf_world w" and reg: "dict_get (existing_buzzer_sets w) p = Some a"
    using assms(1) by (simp_all add: registered_def)
  obtain s where s: "heap w ! a = Initialised s"
    using assms(1) by (auto simp add: registered_def)
  have len: "a < length (heap w)"
    using wf reg by (rule wf_world_in_heap)
  have wf': "wf_world w'"
    using wf assms(2) by (rule BuzzerSet_call_wf)
  show ?thesis
  proof (cases "dict_get (existing_buzzer_sets w) q")
    case None
    have "w' = w\<lparr>heap := heap w @ [fst (snd (BuzzerSet_init Fresh q None ores wres))],
              existing_buzzer_sets := existing_buzzer_sets w @ [(q, length (heap w))]\<rparr>"
      using BuzzerSet_call_world [OF assms(2)] None by simp
    with wf' reg s len show ?thesis
      by (simp add: registered_def dict_get_append_kept nth_append)
  next
    case (Some b)
    obtain s' where s': "fst (snd (BuzzerSet_init (heap w ! b) q None ores wres)) = Initialised s'"
      using BuzzerSet_init_Initialised by blast
    have w': "w' = w\<lparr>heap := (heap w)[b := Initialised s']\<rparr>"
      using BuzzerSet_call_world [OF assms(2)] Some s' by simp
    have "\<exists>t. (heap w)[b := Initialised s'] ! a = Initialised t"
      using s len by (cases "a = b") simp_all
    with wf' reg w' show ?thesis
      by (simp add: registered_def)
  qed
qed

lemma registered_method:
  assumes "registered w p a"
  shows "registered (method_at w b f) p a"
proof (cases "session_at w b")
  case None
  with assms show ?thesis
    by (simp add: method_at_def)
next
  case (Some t)
  have wf: "wf_world w" and reg: "dict_get (existing_buzzer_sets w) p = Some a"
    using assms by (simp_all add: registered_def)
  obtain s where s: "heap w ! a = Initialised s"
    using assms by (auto simp add: registered_def)
  have len: "a < length (heap w)"
    using wf reg by (rule wf_world_in_heap)
  have "\<exists>u. (heap w)[b := Initialised (f t)] ! a = Initialised u"
    using s len by (cases "a = b") simp_all
  with Some wf reg show ?thesis
    by (simp add: method_at_def registered_def wf_world_update)
qed

lemma registered_run: "registered w p a \<Longrightarrow> registered (BuzzerSet_run w es) p a"
proof (induction es arbitrary: w)
  case Nil
  then show ?case by simp
next
  case (Cons e es)
  show ?case
  proof (cases e)
    case (Construct q ores wres)
    obtain r w' ios where call: "BuzzerSet_call w q ores wres = (r, w', ios)"
      by (cases "BuzzerSet_call w q ores wres")
    have "registered w' p a"
      using Cons.prems call by (rule registered_call)
    then have "registered (BuzzerSet_run w' es) p a"
      by (rule Cons.IH)
    with Construct call show ?thesis
      by simp
  next
    case (Method b f)
    have "registered (method_at w b f) p a"
      using Cons.prems by (rule registered_method)
    then have "registered (BuzzerSet_run (method_at w b f) es) p a"
      by (rule Cons.IH)
    with Method show ?thesis
      by simp
  qed
qed

lemma wf_world_method: "wf_world w \<Longrightarrow> wf_world (method_at w b f)"
  by (cases "session_at w b") (simp_all add: method_at_def wf_world_update)

lemma wf_world_run: "wf_world w \<Longrightarrow> wf_world (BuzzerSet_run w es)"
proof (induction es arbitrary: w)
  case Nil
  then show ?case by simp
next
  case (Cons e es)
  show ?case
  proof (cases e)
    case (Construct q ores wres)
    obtain r w' ios where call: "BuzzerSet_call w q ores wres = (r, w', ios)"
      by (cases "BuzzerSet_call w q ores wres")
    have "wf_world w'"
      using Cons.prems call by (rule BuzzerSet_call_wf)
    then have "wf_world (BuzzerSet_run w' es)"
      by (rule Cons.IH)
    with Construct call show ?thesis
      by simp
  next
    case (Method b f)
    have "wf_world (method_at w b f)"
      using Cons.prems by (rule wf_world_method)
    then have "wf_world (BuzzerSet_run (method_at w b f) es)"
      by (rule Cons.IH)
    with Method show ?thesis
      by simp
  qed
qed

lemma registered_after_call:
  assumes "wf_world w" and "BuzzerSet_call w p ores wres = (Returned a, w', ios)"
  shows "registered w' p a"
proof -
  have "fst (BuzzerSet_call w p ores wres) = Returned a"
    using assms(2) by simp
  then have a: "a = fst (BuzzerSet_new w p)"
    by (rule BuzzerSet_call_reference)
  note r = BuzzerSet_call_registers [OF assms, folded a]
  have "wf_world w'"
    using assms by (rule BuzzerSet_call_wf)
  with r show ?thesis
    by (simp add: registered_def)
qed

text \<open>
  C8. From the start of the program, after any run of construction calls and methods,
  let \<^verbatim>\<open>BuzzerSet(p)\<close> return a reference. Then after any further run of construction
  calls and methods, a call \<^verbatim>\<open>BuzzerSet(p)\<close> returns the same reference, makes no call
  on the transport and leaves the world, so the session with all it has become, as it
  was; and a call \<^verbatim>\<open>BuzzerSet(q)\<close> for another path that returns, returns another
  reference.
\<close>

theorem BuzzerSet_call_singleton:
  assumes "BuzzerSet_call (BuzzerSet_run world0 es) p ores wres = (Returned a, w', ios)"
  shows "BuzzerSet_call (BuzzerSet_run w' es') p ores' wres'
           = (Returned a, BuzzerSet_run w' es', [])
    \<and> (\<forall>q b. q \<noteq> p \<and> fst (BuzzerSet_call (BuzzerSet_run w' es') q ores' wres') = Returned b
          \<longrightarrow> b \<noteq> a)"
proof -
  have "wf_world (BuzzerSet_run world0 es)"
    using wf_world0 by (rule wf_world_run)
  then have "registered w' p a"
    using assms by (rule registered_after_call)
  then have r: "registered (BuzzerSet_run w' es') p a"
    by (rule registered_run)
  then obtain s where s: "heap (BuzzerSet_run w' es') ! a = Initialised s"
    by (auto simp add: registered_def)
  from r have "wf_world (BuzzerSet_run w' es')"
    and "dict_get (existing_buzzer_sets (BuzzerSet_run w' es')) p = Some a"
    by (simp_all add: registered_def)
  then show ?thesis
    using s by (rule BuzzerSet_call_registered)
qed

theorem BuzzerSet_call_singleton_witness:
  "fst (BuzzerSet_call (BuzzerSet_run (world0 :: nat world) []) [1] None None) = Returned 0
   \<and> BuzzerSet_call
         (BuzzerSet_run
            (fst (snd (BuzzerSet_call (BuzzerSet_run (world0 :: nat world) []) [1] None None)))
            example_events) [1] None None
       = (Returned 0,
          BuzzerSet_run
            (fst (snd (BuzzerSet_call (BuzzerSet_run (world0 :: nat world) []) [1] None None)))
            example_events,
          [])
   \<and> fst (BuzzerSet_call
         (BuzzerSet_run
            (fst (snd (BuzzerSet_call (BuzzerSet_run (world0 :: nat world) []) [1] None None)))
            example_events) [2] None None) = Returned 1
   \<and> map_option get_lights_state
         (session_at
            (BuzzerSet_run
               (fst (snd (BuzzerSet_call (BuzzerSet_run (world0 :: nat world) []) [1] None None)))
               example_events) 0)
       = Some [True, False, False, False]"
proof -
  define w1 :: "nat world" where
    "w1 = \<lparr>existing_buzzer_sets = [([1], 0)], heap = [Initialised (initial_session [1])]\<rparr>"
  have c1: "BuzzerSet_call (BuzzerSet_run (world0 :: nat world) []) [1] None None
              = (Returned 0, w1, [OpenPath [1], Write [0, 0, 0, 0, 0, 0, 0, 0]])"
    unfolding w1_def by code_simp
  have c2: "fst (BuzzerSet_call (BuzzerSet_run w1 example_events) [2] None None) = Returned 1"
    unfolding w1_def by code_simp
  have c3: "map_option get_lights_state (session_at (BuzzerSet_run w1 example_events) 0)
              = Some [True, False, False, False]"
    unfolding w1_def by code_simp
  from BuzzerSet_call_singleton
    [OF c1, where es' = example_events and ores' = None and wres' = None]
  have c4: "BuzzerSet_call (BuzzerSet_run w1 example_events) [1] None None
              = (Returned 0, BuzzerSet_run w1 example_events, [])"
    by (rule conjunct1)
  have c1': "BuzzerSet_call (world0 :: nat world) [1] None None
               = (Returned 0, w1, [OpenPath [1], Write [0, 0, 0, 0, 0, 0, 0, 0]])"
    using c1 by simp
  show ?thesis
    using c2 c3 c4 by (simp add: c1')
qed

section \<open>Registration with an empty label\<close>

lemma dict_keys_setitem_list:
  "dict_keys (dict_setitem d k v)
     = (if k \<in> set (dict_keys d) then dict_keys d else dict_keys d @ [k])"
  by (induction d k v rule: dict_setitem.induct) (auto simp add: dict_keys_def)

lemma dict_keys_setitem:
  "set (dict_keys (dict_setitem d k v)) = insert k (set (dict_keys d))"
  by (auto simp add: dict_keys_setitem_list)

lemma dict_get_setitem: "dict_get (dict_setitem d k v) k = Some v"
  by (induction d k v rule: dict_setitem.induct) (auto simp add: dict_get_def)

lemma label_or_empty: "label_or (Some []) dflt = dflt" "label_or None dflt = dflt"
  by (simp_all add: label_or_def)

lemma label_or_nonempty: "dflt \<noteq> [] \<Longrightarrow> label_or lbl dflt \<noteq> []"
  by (cases lbl) (simp_all add: label_or_def)

text \<open>
  C10, as the code has it. Each of the four registration methods called with the empty
  string as label does what it does with no label: it registers the callback under the
  string of the callback and returns that string. Whatever label is passed, the keys of
  the registry are then the keys it had and the label returned, and the label returned
  is not the empty string when the string of the callback is not.
\<close>

theorem registration_empty_label:
  "on_change str_of self handler (Some []) = on_change str_of self handler None
    \<and> on_buzz str_of self handler (Some []) = on_buzz str_of self handler None
    \<and> on_button_down str_of self handler (Some []) = on_button_down str_of self handler None
    \<and> on_button_up str_of self handler (Some []) = on_button_up str_of self handler None
    \<and> fst (on_change str_of self handler (Some [])) = str_of handler
    \<and> fst (on_buzz str_of self handler (Some [])) = str_of handler
    \<and> fst (on_button_down str_of self handler (Some [])) = str_of handler
    \<and> fst (on_button_up str_of self handler (Some [])) = str_of handler
    \<and> dict_get (priv_on_change (snd (on_change str_of self handler (Some []))))
          (str_of handler) = Some handler
    \<and> dict_get (priv_on_buzz (snd (on_buzz str_of self handler (Some []))))
          (str_of handler) = Some handler
    \<and> dict_get (priv_on_button_down (snd (on_button_down str_of self handler (Some []))))
          (str_of handler) = Some handler
    \<and> dict_get (priv_on_button_up (snd (on_button_up str_of self handler (Some []))))
          (str_of handler) = Some handler
    \<and> set (dict_keys (priv_on_change (snd (on_change str_of self handler lbl))))
        = insert (fst (on_change str_of self handler lbl)) (set (dict_keys (priv_on_change self)))
    \<and> set (dict_keys (priv_on_buzz (snd (on_buzz str_of self handler lbl))))
        = insert (fst (on_buzz str_of self handler lbl)) (set (dict_keys (priv_on_buzz self)))
    \<and> set (dict_keys (priv_on_button_down (snd (on_button_down str_of self handler lbl))))
        = insert (fst (on_button_down str_of self handler lbl))
            (set (dict_keys (priv_on_button_down self)))
    \<and> set (dict_keys (priv_on_button_up (snd (on_button_up str_of self handler lbl))))
        = insert (fst (on_button_up str_of self handler lbl))
            (set (dict_keys (priv_on_button_up self)))
    \<and> (str_of handler \<noteq> [] \<longrightarrow>
          fst (on_change str_of self handler lbl) \<noteq> []
          \<and> fst (on_buzz str_of self handler lbl) \<noteq> []
          \<and> fst (on_button_down str_of self handler lbl) \<noteq> []
          \<and> fst (on_button_up str_of self handler lbl) \<noteq> [])"
  by (simp add: on_change_def on_buzz_def on_button_down_def on_button_up_def Let_def
      label_or_empty label_or_nonempty dict_keys_setitem dict_get_setitem)

theorem registration_empty_label_witness:
  "example_str 7 \<noteq> []
   \<and> fst (on_change example_str (initial_session [1]) 7 (Some [])) \<noteq> []
   \<and> fst (on_change example_str (initial_session [1]) 7 (Some [])) = ''<function handler>''
   \<and> dict_get (priv_on_change (snd (on_change example_str (initial_session [1]) 7 (Some []))))
         ''<function handler>'' = Some 7
   \<and> set (dict_keys (priv_on_change (snd (on_change example_str (initial_session [1]) 7 (Some [])))))
       = {''<function handler>''}"
proof -
  have ne: "example_str 7 \<noteq> []"
    by (simp add: example_str_def)
  have keys: "set (dict_keys (priv_on_change (initial_session [1] :: nat BuzzerSet))) = {}"
    by (simp add: initial_session_def dict_keys_def)
  have str: "example_str 7 = ''<function handler>''"
    by (simp add: example_str_def)
  note t = registration_empty_label
    [where str_of = example_str and handler = 7 and self = "initial_session [1]"
       and lbl = "Some []"]
  from t have f: "fst (on_change example_str (initial_session [1]) 7 (Some [])) = example_str 7"
    by (elim conjE) assumption
  from t have g: "dict_get (priv_on_change (snd (on_change example_str (initial_session [1]) 7 (Some []))))
         (example_str 7) = Some 7"
    by (elim conjE) assumption
  from t have k: "set (dict_keys (priv_on_change (snd (on_change example_str (initial_session [1]) 7 (Some [])))))
       = insert (fst (on_change example_str (initial_session [1]) 7 (Some [])))
           (set (dict_keys (priv_on_change (initial_session [1] :: nat BuzzerSet))))"
    by (elim conjE) assumption
  from t ne have n: "fst (on_change example_str (initial_session [1]) 7 (Some [])) \<noteq> []"
    by (elim conjE impE) assumption+
  show ?thesis
    using ne f g k n by (simp add: keys str)
qed

text \<open>
  C10, as the claim has it, fails for a callback whose string is empty: with the empty
  label the callback is registered under the empty string, which is returned.
\<close>

theorem registration_empty_label_counterexample:
  "fst (on_change silent_str (initial_session [1]) 7 (Some [])) = []
   \<and> dict_keys (priv_on_change (snd (on_change silent_str (initial_session [1]) 7 (Some []))))
       = [[]]"
  by (simp add: on_change_def label_or_def silent_str_def initial_session_def dict_keys_def)

end
